theory Spec2Isabelle
  imports Main "HOL-Library.AList"
begin

section \<open>Data model\<close>

text \<open>
  The manager of \<^verbatim>\<open>manager.ts\<close> holds a cache of ConfigMap/Secret pairs, two flags and a
  Kubernetes client. A JavaScript object used as a dictionary (labels, data, the cache) is an
  association list: \<open>map_of\<close> reads a key, \<open>AList.update\<close> writes one (in place when the key
  exists, at the end otherwise, which is the insertion order a \<^verbatim>\<open>for ... in\<close> loop follows
  for non-numeric keys) and \<open>AList.delete\<close> is the \<^verbatim>\<open>delete\<close> operator. The list holds
  the object's own properties. Labels and the cache are read under keys that contain a slash,
  which no object inherits, so \<open>map_of\<close> is the read, and an absent \<^verbatim>\<open>labels\<close> object reads
  like an empty one. The \<^verbatim>\<open>data\<close> of a ConfigMap or Secret is read under a key taken from a
  label value: that read goes through the prototype chain (\<open>js_get\<close> below), and an absent
  \<^verbatim>\<open>data\<close> (\<open>None\<close>) differs from an empty one.

  A string stands for its UTF-8 bytes. Objects come from the API server, which always fills in
  \<^verbatim>\<open>metadata\<close>, the namespace, a ConfigMap's name and its \<^verbatim>\<open>resourceVersion\<close>. The name of a
  Secret is optional, as in \<^verbatim>\<open>V1ObjectMeta\<close>: the manager takes the name of the Secret it
  builds from a label lookup, which yields \<^verbatim>\<open>undefined\<close> when the label is missing.
\<close>

type_synonym dict = "(string \<times> string) list"

record configMap =
  cm_name :: string
  cm_namespace :: string
  cm_resourceVersion :: string
  cm_labels :: dict
  cm_data :: "dict option"

record secret =
  s_name :: "string option"
  s_namespace :: string
  s_labels :: dict
  s_data :: "dict option"

record entry =
  e_secret :: "secret option"
  e_configMap :: "configMap option"

definition target_secret_label :: string where
  "target_secret_label = ''config.s24.dev/target-secret''"

definition source_key_label :: string where
  "source_key_label = ''config.s24.dev/source-key''"

definition decryption_secret_label :: string where
  "decryption_secret_label = ''config.s24.dev/decryption-secret''"

definition decryption_secret_key_label :: string where
  "decryption_secret_key_label = ''config.s24.dev/decryption-secret-key''"

definition source_configmap_label :: string where
  "source_configmap_label = ''config.s24.dev/source-configmap''"

definition source_configmap_version_label :: string where
  "source_configmap_version_label = ''config.s24.dev/source-configmap-version''"

subsection \<open>Reading a property of a plain object\<close>

text \<open>
  The objects the manager reads come from \<^verbatim>\<open>JSON.parse\<close>: plain objects whose prototype is
  \<^verbatim>\<open>Object.prototype\<close>. \<^verbatim>\<open>obj?.[key]\<close> is \<^verbatim>\<open>undefined\<close> when \<^verbatim>\<open>obj\<close> is; otherwise
  it is the own property when there is one, and failing that the property of that name on
  \<^verbatim>\<open>Object.prototype\<close>, which is a function or an object and never a string.
\<close>

datatype js_value = JsString string | JsInherited string

definition object_prototype_keys :: "string list" where
  "object_prototype_keys =
     [''constructor'', ''hasOwnProperty'', ''isPrototypeOf'', ''propertyIsEnumerable'',
      ''toLocaleString'', ''toString'', ''valueOf'', ''__proto__'',
      ''__defineGetter__'', ''__defineSetter__'', ''__lookupGetter__'', ''__lookupSetter__'']"

definition js_get :: "dict option \<Rightarrow> string \<Rightarrow> js_value option" where
  "js_get obj key =
     (case obj of
        None \<Rightarrow> None
      | Some own \<Rightarrow>
          (case map_of own key of
             Some v \<Rightarrow> Some (JsString v)
           | None \<Rightarrow> if key \<in> set object_prototype_keys then Some (JsInherited key) else None))"

subsection \<open>Errors, external calls and log lines\<close>

text \<open>
  The source throws plain \<^verbatim>\<open>Error\<close> objects told apart by their message; the constructors
  carry what the message interpolates. \<open>ClusterError\<close> is a rejected API promise,
  \<open>DecryptionFailed\<close> a failure of \<^verbatim>\<open>parseEnvContent\<close>, and \<open>TypeError\<close> is what reading a
  property of \<^verbatim>\<open>undefined\<close> throws (the argument names the property) and what
  \<^verbatim>\<open>Buffer.from\<close> throws when its argument is not a string (\<^verbatim>\<open>ERR_INVALID_ARG_TYPE\<close>).
\<close>

datatype error =
    MissingSourceKey string string
  | MissingDecryptionKey string string
  | DecryptionFailed string
  | ClusterError string
  | TypeError string

text \<open>
  Every call that leaves the manager is recorded, in order, with its arguments: the four
  \<^verbatim>\<open>coreV1Api\<close> methods and \<^verbatim>\<open>parseEnvContent\<close>.
\<close>

datatype call =
    DeleteNamespacedSecret "string option" string
  | CreateNamespacedSecret string secret
  | ReplaceNamespacedSecret "string option" string secret
  | ReadNamespacedSecret string string
  | ParseEnvContent js_value "string option"

datatype log = LogInfo string | LogError error string

text \<open>
  The collaborators are parameters. An API method answers from the calls made so far (the
  cluster's state is a function of its history) with \<open>Inl\<close> a rejection or \<open>Inr\<close> the body;
  \<^verbatim>\<open>parseEnvContent\<close> is a function of its two arguments, the first of which is whatever the
  read of the source entry gave; its result lists the own enumerable properties of the
  object it returns, none of them named \<^verbatim>\<open>__proto__\<close> (a parser that fills a plain object by
  assignment cannot produce one). \<open>base64ToUtf8\<close> is Node's
  \<^verbatim>\<open>Buffer.from(x, 'base64').toString('utf-8')\<close> on a string.
\<close>

record env =
  deleteNamespacedSecret :: "call list \<Rightarrow> string option \<Rightarrow> string \<Rightarrow> string + unit"
  createNamespacedSecret :: "call list \<Rightarrow> string \<Rightarrow> secret \<Rightarrow> string + secret"
  replaceNamespacedSecret :: "call list \<Rightarrow> string option \<Rightarrow> string \<Rightarrow> secret \<Rightarrow> string + secret"
  readNamespacedSecret :: "call list \<Rightarrow> string \<Rightarrow> string \<Rightarrow> string + secret"
  parseEnvContent :: "js_value \<Rightarrow> string option \<Rightarrow> string + dict"
  base64ToUtf8 :: "string \<Rightarrow> string"

subsection \<open>The manager's state\<close>

text \<open>
  \<open>isReady\<close>, \<open>isPendingSync\<close> and \<open>cache\<close> are the fields of the class. \<open>calls\<close> and \<open>logs\<close>
  record what the client and the logger were asked to do. \<open>inflight\<close> holds the passes whose
  promise has not settled yet, each with the outcome it settles to (\<open>None\<close> fulfilled,
  \<open>Some e\<close> rejected with \<open>e\<close>); \<open>timers\<close> counts the scheduled
  \<^verbatim>\<open>setTimeout(() => this.syncSecrets(), 0)\<close> callbacks; \<open>passesStarted\<close> counts the calls of
  \<^verbatim>\<open>_syncSecrets\<close>.
\<close>

record manager =
  isReady :: bool
  isPendingSync :: bool
  cache :: "(string \<times> entry) list"
  calls :: "call list"
  logs :: "log list"
  inflight :: "error option list"
  timers :: nat
  passesStarted :: nat

definition new_manager :: manager where
  "new_manager = \<lparr>isReady = False, isPendingSync = True, cache = [], calls = [],
     logs = [LogInfo ''Manager created''], inflight = [], timers = 0, passesStarted = 0\<rparr>"

section \<open>Base64\<close>

text \<open>
  \<^verbatim>\<open>Buffer.from(s).toString('base64')\<close>: the bytes of the string in the alphabet of RFC 4648,
  three bytes to four characters, padded with \<^verbatim>\<open>=\<close>.
\<close>

definition b64chars :: string where
  "b64chars = ''ABCDEFGHIJKLMNOPQRSTUVWXYZabcdefghijklmnopqrstuvwxyz0123456789+/''"

fun base64 :: "nat list \<Rightarrow> string" where
  "base64 [] = []"
| "base64 [a] = [b64chars ! (a div 4), b64chars ! ((a mod 4) * 16), CHR ''='', CHR ''='']"
| "base64 [a, b] =
     [b64chars ! (a div 4), b64chars ! ((a mod 4) * 16 + b div 16),
      b64chars ! ((b mod 16) * 4), CHR ''='']"
| "base64 (a # b # c # bs) =
     [b64chars ! (a div 4), b64chars ! ((a mod 4) * 16 + b div 16),
      b64chars ! ((b mod 16) * 4 + c div 64), b64chars ! (c mod 64)] @ base64 bs"

definition toBase64 :: "string \<Rightarrow> string" where
  "toBase64 s = base64 (map of_char s)"

section \<open>Secret materializer\<close>

definition record_call :: "call \<Rightarrow> manager \<Rightarrow> manager" where
  "record_call c m = m\<lparr>calls := calls m @ [c]\<rparr>"

definition write_log :: "log \<Rightarrow> manager \<Rightarrow> manager" where
  "write_log l m = m\<lparr>logs := logs m @ [l]\<rparr>"

text \<open>
  \<^verbatim>\<open>getDecryptionSecret\<close>: the key Secret is read in the ConfigMap's own namespace. The
  entry is tested against \<^verbatim>\<open>undefined\<close> and then handed to \<^verbatim>\<open>Buffer.from\<close>, which throws
  on an inherited property.
\<close>

definition getDecryptionSecret ::
  "env \<Rightarrow> string \<Rightarrow> string \<Rightarrow> string \<Rightarrow> manager \<Rightarrow> (error + string) \<times> manager" where
  "getDecryptionSecret env sourceNs keySecretName keySecretKey m =
     (let m1 = record_call (ReadNamespacedSecret keySecretName sourceNs) m in
      case readNamespacedSecret env (calls m) keySecretName sourceNs of
        Inl e \<Rightarrow> (Inl (ClusterError e), m1)
      | Inr s \<Rightarrow>
          (case js_get (s_data s) keySecretKey of
             None \<Rightarrow> (Inl (MissingDecryptionKey keySecretKey keySecretName), m1)
           | Some (JsString v) \<Rightarrow> (Inr (base64ToUtf8 env v), m1)
           | Some (JsInherited _) \<Rightarrow> (Inl (TypeError ''ERR_INVALID_ARG_TYPE''), m1)))"

definition extractConfigFromEncryptedEnv ::
  "env \<Rightarrow> js_value \<Rightarrow> string option \<Rightarrow> manager \<Rightarrow> (error + dict) \<times> manager" where
  "extractConfigFromEncryptedEnv env data decryptionSecret m =
     (let m1 = record_call (ParseEnvContent data decryptionSecret) m in
      case parseEnvContent env data decryptionSecret of
        Inl e \<Rightarrow> (Inl (DecryptionFailed e), m1)
      | Inr d \<Rightarrow> (Inr d, m1))"

text \<open>
  \<^verbatim>\<open>createSecretWithConfigMapData\<close>: build the body, then replace when an existing Secret was
  passed and create otherwise. The existing Secret is only tested for presence.
\<close>

definition createSecretWithConfigMapData ::
  "env \<Rightarrow> configMap \<Rightarrow> string option \<Rightarrow> dict \<Rightarrow> secret option \<Rightarrow> manager
     \<Rightarrow> (error + secret) \<times> manager" where
  "createSecretWithConfigMapData env configMap name data existingSecret m =
     (let secret = \<lparr>s_name = name, s_namespace = cm_namespace configMap,
            s_labels = [(source_configmap_label, cm_name configMap),
                        (source_configmap_version_label, cm_resourceVersion configMap)],
            s_data = Some (map (\<lambda>(key, v). (key, toBase64 v)) data)\<rparr>
      in case existingSecret of
           Some _ \<Rightarrow>
             (let m1 = record_call
                    (ReplaceNamespacedSecret (s_name secret) (s_namespace secret) secret) m in
              case replaceNamespacedSecret env (calls m) (s_name secret) (s_namespace secret) secret of
                Inl e \<Rightarrow> (Inl (ClusterError e), m1)
              | Inr body \<Rightarrow> (Inr body, m1))
         | None \<Rightarrow>
             (let m1 = record_call (CreateNamespacedSecret (s_namespace secret) secret) m in
              case createNamespacedSecret env (calls m) (s_namespace secret) secret of
                Inl e \<Rightarrow> (Inl (ClusterError e), m1)
              | Inr body \<Rightarrow> (Inr body, m1)))"

text \<open>
  \<^verbatim>\<open>createSecretForConfigMap\<close>. \<^verbatim>\<open>??\<close> replaces only a missing label (\<open>sourceKey_of\<close>,
  \<open>keySecretKey_of\<close>); the test \<^verbatim>\<open>keySecretName ? ... : undefined\<close> is on truthiness, so an
  empty label value reads no key. The source entry is tested against \<^verbatim>\<open>undefined\<close> only:
  an inherited property passes the test and goes to the parser as it is.
\<close>

definition sourceKey_of :: "configMap \<Rightarrow> string" where
  "sourceKey_of configMap =
     (case map_of (cm_labels configMap) source_key_label of None \<Rightarrow> ''.env'' | Some k \<Rightarrow> k)"

definition keySecretKey_of :: "configMap \<Rightarrow> string" where
  "keySecretKey_of configMap =
     (case map_of (cm_labels configMap) decryption_secret_key_label of
        None \<Rightarrow> ''CONFIG_DECRYPTION_KEY'' | Some k \<Rightarrow> k)"

definition createSecretForConfigMap ::
  "env \<Rightarrow> configMap \<Rightarrow> secret option \<Rightarrow> manager \<Rightarrow> (error + secret) \<times> manager" where
  "createSecretForConfigMap env configMap existingSecret m =
     (let sourceKey = sourceKey_of configMap
      in case js_get (cm_data configMap) sourceKey of
           None \<Rightarrow> (Inl (MissingSourceKey sourceKey (cm_name configMap)), m)
         | Some sourceData \<Rightarrow>
             (let keySecretName = map_of (cm_labels configMap) decryption_secret_label;
                  keySecretKey = keySecretKey_of configMap;
                  (decryptionSecret, m1) =
                     (case keySecretName of
                        None \<Rightarrow> (Inr None, m)
                      | Some n \<Rightarrow>
                          if n = [] then (Inr None, m)
                          else (case getDecryptionSecret env (cm_namespace configMap) n keySecretKey m of
                                  (Inl e, m') \<Rightarrow> (Inl e, m')
                                | (Inr k, m') \<Rightarrow> (Inr (Some k), m')))
              in case decryptionSecret of
                   Inl e \<Rightarrow> (Inl e, m1)
                 | Inr key \<Rightarrow>
                     (let targetSecret = map_of (cm_labels configMap) target_secret_label in
                      case extractConfigFromEncryptedEnv env sourceData key m1 of
                        (Inl e, m2) \<Rightarrow> (Inl e, m2)
                      | (Inr secretData, m2) \<Rightarrow>
                          createSecretWithConfigMapData env configMap targetSecret secretData
                            existingSecret m2)))"

section \<open>Reconciler\<close>

text \<open>
  One iteration of the \<^verbatim>\<open>for (const secretName in this.cache)\<close> loop of
  \<^verbatim>\<open>_syncSecrets\<close>. The first component of the result is \<open>Some e\<close> when the iteration throws
  \<open>e\<close> out of the loop, \<open>None\<close> when it falls through to the next key. Errors inside a
  \<^verbatim>\<open>try\<close> block are logged there and do not leave the iteration.

  The three \<^verbatim>\<open>if\<close> statements run one after the other, as in the source: only the first ends
  with \<^verbatim>\<open>continue\<close>. The condition of the \<^verbatim>\<open>else if\<close> reads
  \<^verbatim>\<open>configMap!.metadata\<close> outside any \<^verbatim>\<open>try\<close>, which throws when the ConfigMap is absent.
\<close>

definition delete_branch :: "env \<Rightarrow> string \<Rightarrow> secret option \<Rightarrow> manager \<Rightarrow> manager" where
  "delete_branch env secretName secret m =
     (let m1 = write_log (LogInfo (''ConfigMap for '' @ secretName @ '' not found. Deleting secret.'')) m in
      case secret of
        None \<Rightarrow> write_log (LogError (TypeError ''metadata'') (''Failed to delete secret '' @ secretName)) m1
      | Some s \<Rightarrow>
          (let m2 = record_call (DeleteNamespacedSecret (s_name s) (s_namespace s)) m1 in
           case deleteNamespacedSecret env (calls m1) (s_name s) (s_namespace s) of
             Inl e \<Rightarrow> write_log (LogError (ClusterError e) (''Failed to delete secret '' @ secretName)) m2
           | Inr _ \<Rightarrow> m2\<lparr>cache := AList.delete secretName (cache m2)\<rparr>))"

text \<open>
  \<^verbatim>\<open>this.cache[secretName].secret = await this.createSecretForConfigMap(...)\<close> inside its
  \<^verbatim>\<open>try\<close>: the entry is changed in place on success, and left alone on failure.
\<close>

definition store_secret :: "string \<Rightarrow> secret \<Rightarrow> manager \<Rightarrow> manager" where
  "store_secret secretName body m =
     m\<lparr>cache := AList.map_entry secretName (\<lambda>e. e\<lparr>e_secret := Some body\<rparr>) (cache m)\<rparr>"

definition materialize_branch ::
  "env \<Rightarrow> string \<Rightarrow> string \<Rightarrow> configMap option \<Rightarrow> secret option \<Rightarrow> manager \<Rightarrow> manager" where
  "materialize_branch env failure secretName configMap existingSecret m =
     (case configMap of
        None \<Rightarrow> write_log (LogError (TypeError ''metadata'') (failure @ secretName)) m
      | Some cm \<Rightarrow>
          (case createSecretForConfigMap env cm existingSecret m of
             (Inl e, m') \<Rightarrow> write_log (LogError e (failure @ secretName)) m'
           | (Inr body, m') \<Rightarrow> store_secret secretName body m'))"

definition sync_entry :: "env \<Rightarrow> string \<Rightarrow> manager \<Rightarrow> error option \<times> manager" where
  "sync_entry env secretName m =
     (case map_of (cache m) secretName of
        None \<Rightarrow> (None, m)
      | Some e \<Rightarrow>
          (let secret = e_secret e; configMap = e_configMap e in
           if secret = None \<and> configMap = None
           then (None, m\<lparr>cache := AList.delete secretName (cache m)\<rparr>)
           else
             (let m1 = (if configMap = None then delete_branch env secretName secret m else m) in
              case secret of
                None \<Rightarrow>
                  (None, materialize_branch env ''Failed to create secret '' secretName configMap None
                     (write_log (LogInfo (''Secret for '' @ secretName @ '' does not exist. Creating secret.'')) m1))
              | Some s \<Rightarrow>
                  (case configMap of
                     None \<Rightarrow> (Some (TypeError ''metadata''), m1)
                   | Some cm \<Rightarrow>
                       if map_of (s_labels s) source_configmap_version_label
                            \<noteq> Some (cm_resourceVersion cm)
                       then (None, materialize_branch env ''Failed to update secret '' secretName
                               configMap (Some s)
                               (write_log (LogInfo (''ConfigMap for '' @ secretName @ '' updated. Updating secret.'')) m1))
                       else (None, m1)))))"

text \<open>
  The loop visits the keys the cache had when it started, in insertion order, and stops at the
  first iteration that throws. A key deleted before its turn is skipped (the \<open>None\<close> case of
  \<open>sync_entry\<close>). The pass is run without a watch callback changing the cache while it waits
  for the cluster.
\<close>

fun sync_loop :: "env \<Rightarrow> string list \<Rightarrow> manager \<Rightarrow> error option \<times> manager" where
  "sync_loop env [] m = (None, m)"
| "sync_loop env (secretName # rest) m =
     (case sync_entry env secretName m of
        (Some e, m') \<Rightarrow> (Some e, m')
      | (None, m') \<Rightarrow> sync_loop env rest m')"

text \<open>\<^verbatim>\<open>_syncSecrets\<close> (an Isabelle name cannot start with an underscore).\<close>

definition syncSecrets_pass :: "env \<Rightarrow> manager \<Rightarrow> error option \<times> manager" where
  "syncSecrets_pass env m = sync_loop env (map fst (cache m)) m"

section \<open>Sync scheduler\<close>

text \<open>
  \<^verbatim>\<open>syncSecrets\<close>: the synchronous part sets the flags and calls \<^verbatim>\<open>_syncSecrets\<close>; the
  \<^verbatim>\<open>then\<close>/\<^verbatim>\<open>catch\<close>/\<^verbatim>\<open>finally\<close> handlers run when the promise settles (\<open>settled\<close>).
\<close>

definition syncSecrets :: "env \<Rightarrow> manager \<Rightarrow> manager" where
  "syncSecrets env m =
     (if \<not> isReady m then m\<lparr>isPendingSync := True\<rparr>
      else
        (let m1 = m\<lparr>isReady := False, isPendingSync := False\<rparr>;
             (outcome, m2) = syncSecrets_pass env (m1\<lparr>passesStarted := Suc (passesStarted m1)\<rparr>)
         in m2\<lparr>inflight := inflight m2 @ [outcome]\<rparr>))"

definition settled :: "manager \<Rightarrow> manager" where
  "settled m =
     (case inflight m of
        [] \<Rightarrow> m
      | outcome # rest \<Rightarrow>
          (let m1 = write_log (case outcome of
                                 None \<Rightarrow> LogInfo ''Secrets synced''
                               | Some err \<Rightarrow> LogError err ''Failed to sync secrets'')
                      (m\<lparr>inflight := rest\<rparr>);
               m2 = m1\<lparr>isReady := True\<rparr>
           in if isPendingSync m2 then m2\<lparr>timers := Suc (timers m2)\<rparr> else m2))"

subsection \<open>Watch callbacks and the event loop\<close>

datatype watch_type = ADDED | MODIFIED | DELETED

fun type_name :: "watch_type \<Rightarrow> string" where
  "type_name ADDED = ''ADDED''"
| "type_name MODIFIED = ''MODIFIED''"
| "type_name DELETED = ''DELETED''"

text \<open>A template literal prints a missing value as \<^verbatim>\<open>undefined\<close>.\<close>

definition js_string :: "string option \<Rightarrow> string" where
  "js_string x = (case x of None \<Rightarrow> ''undefined'' | Some s \<Rightarrow> s)"

text \<open>\<^verbatim>\<open>{ ...this.cache[secretName] }\<close>: the entry's fields, none when the key is new.\<close>

definition spread_entry :: "(string \<times> entry) list \<Rightarrow> string \<Rightarrow> entry" where
  "spread_entry c secretName =
     (case map_of c secretName of
        None \<Rightarrow> \<lparr>e_secret = None, e_configMap = None\<rparr>
      | Some e \<Rightarrow> e)"

definition configMap_key :: "configMap \<Rightarrow> string" where
  "configMap_key configMap =
     cm_namespace configMap @ ''/'' @ js_string (map_of (cm_labels configMap) target_secret_label)"

definition secret_key :: "secret \<Rightarrow> string" where
  "secret_key secret = s_namespace secret @ ''/'' @ js_string (s_name secret)"

definition onConfigMapEvent :: "env \<Rightarrow> watch_type \<Rightarrow> configMap \<Rightarrow> manager \<Rightarrow> manager" where
  "onConfigMapEvent env type configMap m =
     (let m1 = write_log (LogInfo (''ConfigMap '' @ cm_name configMap @ '' '' @ type_name type)) m;
          secretName = configMap_key configMap;
          m2 = m1\<lparr>cache := AList.update secretName
                  ((spread_entry (cache m1) secretName)
                     \<lparr>e_configMap := (if type = DELETED then None else Some configMap)\<rparr>)
                  (cache m1)\<rparr>
      in syncSecrets env m2)"

definition onSecretEvent :: "env \<Rightarrow> watch_type \<Rightarrow> secret \<Rightarrow> manager \<Rightarrow> manager" where
  "onSecretEvent env type secret m =
     (let m1 = write_log (LogInfo (''Secret '' @ js_string (s_name secret) @ '' '' @ type_name type)) m;
          secretName = secret_key secret;
          m2 = m1\<lparr>cache := AList.update secretName
                  ((spread_entry (cache m1) secretName)
                     \<lparr>e_secret := (if type = DELETED then None else Some secret)\<rparr>)
                  (cache m1)\<rparr>
      in syncSecrets env m2)"

text \<open>
  What the event loop can run on a manager: a watch callback, a call of the public
  \<^verbatim>\<open>syncSecrets\<close> (the 30-second interval, or any other caller), the end of \<^verbatim>\<open>start\<close> once
  both watches are registered and the five seconds have passed (\<open>Started\<close>), the settling of
  a pass, and a zero-delay timer set by \<^verbatim>\<open>finally\<close>.
\<close>

datatype event =
    ConfigMapEvent watch_type configMap
  | SecretEvent watch_type secret
  | Trigger
  | Started
  | Settled
  | TimerFired

fun step :: "env \<Rightarrow> manager \<Rightarrow> event \<Rightarrow> manager" where
  "step env m (ConfigMapEvent type configMap) = onConfigMapEvent env type configMap m"
| "step env m (SecretEvent type secret) = onSecretEvent env type secret m"
| "step env m Trigger = syncSecrets env m"
| "step env m Started = syncSecrets env (m\<lparr>isReady := True\<rparr>)"
| "step env m Settled = settled m"
| "step env m TimerFired =
     (if timers m = 0 then m else syncSecrets env (m\<lparr>timers := timers m - 1\<rparr>))"

definition run :: "env \<Rightarrow> manager \<Rightarrow> event list \<Rightarrow> manager" where
  "run env m evs = foldl (step env) m evs"

section \<open>Notions used in the proofs\<close>

text \<open>The part of the state that the scheduler owns and a pass never writes.\<close>

definition scheduling :: "manager \<Rightarrow> bool \<times> bool \<times> error option list \<times> nat \<times> nat" where
  "scheduling m = (isReady m, isPendingSync m, inflight m, timers m, passesStarted m)"

text \<open>A key is settled when it has left the cache or its entry has a ConfigMap.\<close>

definition settled_key :: "manager \<Rightarrow> string \<Rightarrow> bool" where
  "settled_key m k = (case map_of (cache m) k of None \<Rightarrow> True | Some e \<Rightarrow> e_configMap e \<noteq> None)"

text \<open>The manager before the end of \<^verbatim>\<open>start\<close>, and the invariant of the scheduler after it.\<close>

definition not_started :: "manager \<Rightarrow> bool" where
  "not_started m = (scheduling m = (False, True, [], 0, 0) \<and> calls m = [])"

definition one_at_a_time :: "manager \<Rightarrow> bool" where
  "one_at_a_time m = (length (inflight m) \<le> 1 \<and> (isReady m \<longrightarrow> inflight m = []))"

section \<open>Example objects\<close>

text \<open>
  A cluster that accepts every call and answers a write with the body it was sent, a parser
  that yields one pair from any string and fails on anything else, and the objects of the
  repository's test-suite.
\<close>

definition example_env :: env where
  "example_env = \<lparr>
     deleteNamespacedSecret = (\<lambda>_ _ _. Inr ()),
     createNamespacedSecret = (\<lambda>_ _ body. Inr body),
     replaceNamespacedSecret = (\<lambda>_ _ _ body. Inr body),
     readNamespacedSecret = (\<lambda>_ name ns. Inr \<lparr>s_name = Some name, s_namespace = ns, s_labels = [],
        s_data = Some [(''CONFIG_DECRYPTION_KEY'', ''bXktc2VjcmV0LWtleQ=='')]\<rparr>),
     parseEnvContent = (\<lambda>content _. case content of
        JsString _ \<Rightarrow> Inr [(''KEY'', ''value'')]
      | JsInherited _ \<Rightarrow> Inl ''content is not a string''),
     base64ToUtf8 = (\<lambda>x. if x = ''bXktc2VjcmV0LWtleQ=='' then ''my-secret-key'' else [])\<rparr>"

text \<open>The same cluster, refusing every delete and every replace.\<close>

definition rejecting_env :: env where
  "rejecting_env = example_env\<lparr>
     deleteNamespacedSecret := (\<lambda>_ _ _. Inl ''forbidden''),
     replaceNamespacedSecret := (\<lambda>_ _ _ _. Inl ''forbidden'')\<rparr>"

definition my_config :: configMap where
  "my_config = \<lparr>cm_name = ''my-config'', cm_namespace = ''default'', cm_resourceVersion = ''12345'',
     cm_labels = [(target_secret_label, ''my-secret'')], cm_data = Some [(''.env'', ''KEY=value'')]\<rparr>"

definition my_config_v2 :: configMap where
  "my_config_v2 = my_config\<lparr>cm_resourceVersion := ''67890''\<rparr>"

definition my_secret :: secret where
  "my_secret = \<lparr>s_name = Some ''my-secret'', s_namespace = ''default'',
     s_labels = [(source_configmap_label, ''my-config''), (source_configmap_version_label, ''12345'')],
     s_data = Some []\<rparr>"

definition orphan_secret :: secret where
  "orphan_secret = \<lparr>s_name = Some ''orphan-secret'', s_namespace = ''default'',
     s_labels = [(source_configmap_label, ''missing-config''), (source_configmap_version_label, ''1'')],
     s_data = Some []\<rparr>"

definition other_config :: configMap where
  "other_config = \<lparr>cm_name = ''other-config'', cm_namespace = ''default'', cm_resourceVersion = ''7'',
     cm_labels = [(target_secret_label, ''other-secret'')], cm_data = Some [(''.env'', ''KEY=value'')]\<rparr>"

definition encrypted_config :: configMap where
  "encrypted_config = \<lparr>cm_name = ''my-config'', cm_namespace = ''default'', cm_resourceVersion = ''12345'',
     cm_labels = [(target_secret_label, ''my-secret''), (decryption_secret_label, ''key-secret'')],
     cm_data = Some [(''.env'', ''ENCRYPTED_KEY=encrypted_value'')]\<rparr>"

definition custom_key_config :: configMap where
  "custom_key_config = encrypted_config\<lparr>cm_labels :=
     [(target_secret_label, ''my-secret''), (decryption_secret_label, ''key-secret''),
      (decryption_secret_key_label, ''CUSTOM_KEY_NAME'')]\<rparr>"

definition blank_label_config :: configMap where
  "blank_label_config = my_config\<lparr>cm_labels :=
     [(target_secret_label, ''my-secret''), (decryption_secret_label, [])]\<rparr>"

text \<open>
  Two ConfigMaps whose labels name a property that every object inherits: one as the source
  key (its data has no entry of that name), one as the entry to read in the key Secret.
\<close>

definition constructor_key_config :: configMap where
  "constructor_key_config = encrypted_config\<lparr>cm_labels :=
     [(target_secret_label, ''my-secret''), (source_key_label, ''constructor''),
      (decryption_secret_label, ''key-secret'')]\<rparr>"

definition inherited_key_config :: configMap where
  "inherited_key_config = encrypted_config\<lparr>cm_labels :=
     [(target_secret_label, ''my-secret''), (decryption_secret_label, ''key-secret''),
      (decryption_secret_key_label, ''constructor'')]\<rparr>"

text \<open>A manager in the middle of a pass: not ready, nothing pending yet, one promise open.\<close>

definition busy_manager :: manager where
  "busy_manager = new_manager\<lparr>isPendingSync := False, inflight := [None], passesStarted := 1\<rparr>"

definition converged_manager :: manager where
  "converged_manager = new_manager\<lparr>cache :=
     [(''default/my-secret'', \<lparr>e_secret = Some my_secret, e_configMap = Some my_config\<rparr>)]\<rparr>"

definition created_secret :: secret where
  "created_secret = \<lparr>s_name = Some ''my-secret'', s_namespace = ''default'',
     s_labels = [(''config.s24.dev/source-configmap'', ''my-config''),
                 (''config.s24.dev/source-configmap-version'', ''12345'')],
     s_data = Some [(''KEY'', ''dmFsdWU='')]\<rparr>"

definition key_secret :: secret where
  "key_secret = \<lparr>s_name = Some ''key-secret'', s_namespace = ''default'', s_labels = [],
     s_data = Some [(''CONFIG_DECRYPTION_KEY'', ''bXktc2VjcmV0LWtleQ=='')]\<rparr>"

section \<open>Lemmas\<close>

subsection \<open>What the materializer leaves alone\<close>

lemma scheduling_simps [simp]:
  "scheduling (record_call c m) = scheduling m"
  "scheduling (write_log l m) = scheduling m"
  "scheduling (store_secret k b m) = scheduling m"
  "scheduling (m\<lparr>cache := x\<rparr>) = scheduling m"
  by (simp_all add: scheduling_def record_call_def write_log_def store_secret_def)

lemma cache_simps [simp]:
  "cache (record_call c m) = cache m"
  "cache (write_log l m) = cache m"
  "cache (store_secret k b m) = AList.map_entry k (\<lambda>e. e\<lparr>e_secret := Some b\<rparr>) (cache m)"
  by (simp_all add: record_call_def write_log_def store_secret_def)

lemma calls_simps [simp]:
  "calls (record_call c m) = calls m @ [c]"
  "calls (write_log l m) = calls m"
  "calls (store_secret k b m) = calls m"
  by (simp_all add: record_call_def write_log_def store_secret_def)

lemma logs_simps [simp]:
  "logs (record_call c m) = logs m"
  "logs (write_log l m) = logs m @ [l]"
  "logs (store_secret k b m) = logs m"
  by (simp_all add: record_call_def write_log_def store_secret_def)

lemma getDecryptionSecret_state:
  "snd (getDecryptionSecret env ns n k m) = record_call (ReadNamespacedSecret n ns) m"
  by (simp add: getDecryptionSecret_def Let_def split: sum.splits option.splits js_value.splits)

lemma extractConfig_state:
  "snd (extractConfigFromEncryptedEnv env d key m) = record_call (ParseEnvContent d key) m"
  by (simp add: extractConfigFromEncryptedEnv_def Let_def split: sum.splits)

lemma createSecretWithConfigMapData_state:
  "snd (createSecretWithConfigMapData env cm name d ex m) =
     record_call (case ex of
        None \<Rightarrow> CreateNamespacedSecret (cm_namespace cm)
           \<lparr>s_name = name, s_namespace = cm_namespace cm,
            s_labels = [(source_configmap_label, cm_name cm),
                        (source_configmap_version_label, cm_resourceVersion cm)],
            s_data = Some (map (\<lambda>(key, v). (key, toBase64 v)) d)\<rparr>
      | Some _ \<Rightarrow> ReplaceNamespacedSecret name (cm_namespace cm)
           \<lparr>s_name = name, s_namespace = cm_namespace cm,
            s_labels = [(source_configmap_label, cm_name cm),
                        (source_configmap_version_label, cm_resourceVersion cm)],
            s_data = Some (map (\<lambda>(key, v). (key, toBase64 v)) d)\<rparr>) m"
  by (simp add: createSecretWithConfigMapData_def Let_def split: sum.splits option.splits)

lemma getDecryptionSecret_stateD:
  "getDecryptionSecret env ns n k m = (r, m') \<Longrightarrow> m' = record_call (ReadNamespacedSecret n ns) m"
  using getDecryptionSecret_state [of env ns n k m] by simp

lemma extractConfig_stateD:
  "extractConfigFromEncryptedEnv env d key m = (r, m') \<Longrightarrow> m' = record_call (ParseEnvContent d key) m"
  using extractConfig_state [of env d key m] by simp

lemma createSecretForConfigMap_frame:
  "cache (snd (createSecretForConfigMap env cm ex m)) = cache m \<and>
   logs (snd (createSecretForConfigMap env cm ex m)) = logs m \<and>
   scheduling (snd (createSecretForConfigMap env cm ex m)) = scheduling m"
  unfolding createSecretForConfigMap_def Let_def
  by (auto split: option.splits sum.splits prod.splits
        simp: createSecretWithConfigMapData_state
        dest!: getDecryptionSecret_stateD extractConfig_stateD)

lemma createSecretForConfigMap_frameD:
  assumes "createSecretForConfigMap env cm ex m = (r, m')"
  shows "cache m' = cache m" and "logs m' = logs m" and "scheduling m' = scheduling m"
  using createSecretForConfigMap_frame [of env cm ex m] assms by simp_all

lemma materialize_branch_scheduling [simp]:
  "scheduling (materialize_branch env f k cmo ex m) = scheduling m"
  by (auto simp: materialize_branch_def split: option.splits sum.splits prod.splits
      dest: createSecretForConfigMap_frameD)

lemma materialize_branch_cache:
  "cache (materialize_branch env f k cmo ex m) = cache m \<or>
   (\<exists>b. cache (materialize_branch env f k cmo ex m)
          = AList.map_entry k (\<lambda>e. e\<lparr>e_secret := Some b\<rparr>) (cache m))"
proof (cases cmo)
  case None
  then show ?thesis by (simp add: materialize_branch_def)
next
  case (Some cm)
  obtain r m' where r: "createSecretForConfigMap env cm ex m = (r, m')"
    by (cases "createSecretForConfigMap env cm ex m")
  then have c: "cache m' = cache m" by (rule createSecretForConfigMap_frameD)
  show ?thesis
  proof (cases r)
    case (Inl e)
    with Some r c show ?thesis by (simp add: materialize_branch_def)
  next
    case (Inr b)
    with Some r c show ?thesis by (auto simp add: materialize_branch_def)
  qed
qed

lemma delete_branch_scheduling [simp]:
  "scheduling (delete_branch env k so m) = scheduling m"
  by (simp add: delete_branch_def Let_def split: option.splits sum.splits)

lemma delete_branch_cache:
  "cache (delete_branch env k so m) = cache m \<or>
   cache (delete_branch env k so m) = AList.delete k (cache m)"
  by (simp add: delete_branch_def Let_def split: option.splits sum.splits)

lemma sync_entry_scheduling [simp]:
  "scheduling (snd (sync_entry env k m)) = scheduling m"
  by (simp add: sync_entry_def Let_def split: option.splits)

lemma materialize_branch_lookup_other:
  "k' \<noteq> k \<Longrightarrow> map_of (cache (materialize_branch env f k cmo ex m)) k' = map_of (cache m) k'"
  using materialize_branch_cache [of env f k cmo ex m]
  by (auto simp: AList.map_of_map_entry)

lemma delete_branch_lookup_other:
  "k' \<noteq> k \<Longrightarrow> map_of (cache (delete_branch env k so m)) k' = map_of (cache m) k'"
  using delete_branch_cache [of env k so m] by auto

lemma sync_entry_other:
  "k' \<noteq> k \<Longrightarrow> map_of (cache (snd (sync_entry env k m))) k' = map_of (cache m) k'"
  by (simp add: sync_entry_def Let_def materialize_branch_lookup_other
        delete_branch_lookup_other split: option.splits)

lemma materialize_branch_distinct:
  "distinct (map fst (cache m)) \<Longrightarrow> distinct (map fst (cache (materialize_branch env f k cmo ex m)))"
  using materialize_branch_cache [of env f k cmo ex m]
  by (auto simp: AList.distinct_map_entry)

lemma delete_branch_distinct:
  "distinct (map fst (cache m)) \<Longrightarrow> distinct (map fst (cache (delete_branch env k so m)))"
  using delete_branch_cache [of env k so m]
  by (auto simp: AList.distinct_delete)

lemma sync_entry_distinct:
  "distinct (map fst (cache m)) \<Longrightarrow> distinct (map fst (cache (snd (sync_entry env k m))))"
  by (simp add: sync_entry_def Let_def materialize_branch_distinct delete_branch_distinct
        AList.distinct_delete split: option.splits)

subsection \<open>One iteration and the loop\<close>

lemma materialize_branch_keys:
  "fst ` set (cache (materialize_branch env f k cmo ex m)) = fst ` set (cache m)"
  using materialize_branch_cache [of env f k cmo ex m]
  by (elim disjE exE) (simp_all add: AList.dom_map_entry)

lemma delete_branch_keys:
  "fst ` set (cache (delete_branch env k so m)) \<subseteq> fst ` set (cache m)"
  using delete_branch_cache [of env k so m]
  by (elim disjE) (simp_all add: AList.dom_delete_subset)

lemma sync_entry_keys:
  "fst ` set (cache (snd (sync_entry env k m))) \<subseteq> fst ` set (cache m)"
proof (cases "map_of (cache m) k")
  case None
  then show ?thesis by (simp add: sync_entry_def)
next
  case (Some e)
  have d: "fst ` set (AList.delete k (cache m)) \<subseteq> fst ` set (cache m)"
    by (rule AList.dom_delete_subset)
  have b: "\<And>so. fst ` set (cache (delete_branch env k so m)) \<subseteq> fst ` set (cache m)"
    by (rule delete_branch_keys)
  from Some show ?thesis
    using d b
    by (simp add: sync_entry_def Let_def materialize_branch_keys split: option.splits)
qed


lemma materialize_branch_settled:
  assumes "map_of (cache m) k = Some e" and "e_configMap e \<noteq> None"
  shows "settled_key (materialize_branch env f k cmo ex m) k"
  using materialize_branch_cache [of env f k cmo ex m] assms
  by (auto simp: settled_key_def AList.map_of_map_entry)

lemma sync_entry_self:
  assumes "fst (sync_entry env k m) = None"
  shows "settled_key (snd (sync_entry env k m)) k"
proof (cases "map_of (cache m) k")
  case None
  then show ?thesis by (simp add: sync_entry_def settled_key_def)
next
  case (Some e)
  show ?thesis
  proof (cases "e_configMap e")
    case None
    note cmNone = this
    show ?thesis
    proof (cases "e_secret e")
      case None
      with Some cmNone show ?thesis
        by (simp add: sync_entry_def AList.delete_conv' settled_key_def)
    next
      case (Some s)
      with \<open>map_of (cache m) k = Some e\<close> cmNone assms show ?thesis
        by (simp add: sync_entry_def)
    qed
  next
    case (Some cm)
    have a: "\<And>f cmo ex l. settled_key (materialize_branch env f k cmo ex (write_log l m)) k"
      using \<open>map_of (cache m) k = Some e\<close> Some
      by (intro materialize_branch_settled [where e = e]) simp_all
    have b: "settled_key m k"
      using \<open>map_of (cache m) k = Some e\<close> Some by (simp add: settled_key_def)
    from Some \<open>map_of (cache m) k = Some e\<close> show ?thesis
      by (simp add: sync_entry_def Let_def a b split: option.splits)
  qed
qed

lemma sync_entry_preserves_settled:
  assumes "settled_key m k'" and "fst (sync_entry env k m) = None"
  shows "settled_key (snd (sync_entry env k m)) k'"
proof (cases "k' = k")
  case True
  with assms(2) show ?thesis by (simp add: sync_entry_self)
next
  case False
  with assms(1) show ?thesis by (simp add: settled_key_def sync_entry_other)
qed

lemma sync_loop_preserves_settled:
  "settled_key m k' \<Longrightarrow> fst (sync_loop env ks m) = None \<Longrightarrow>
   settled_key (snd (sync_loop env ks m)) k'"
proof (induction ks arbitrary: m)
  case Nil
  then show ?case by simp
next
  case (Cons k ks)
  obtain r m1 where r: "sync_entry env k m = (r, m1)" by (cases "sync_entry env k m")
  with Cons.prems(2) have rn: "r = None" by (cases r) auto
  from r rn Cons.prems(1) have s1: "settled_key m1 k'"
    using sync_entry_preserves_settled [of m k' env k] by simp
  from r rn Cons.prems(2) have l: "fst (sync_loop env ks m1) = None" by simp
  from Cons.IH [OF s1 l] r rn show ?case by simp
qed

lemma sync_loop_settles:
  "fst (sync_loop env ks m) = None \<Longrightarrow> k \<in> set ks \<Longrightarrow> settled_key (snd (sync_loop env ks m)) k"
proof (induction ks arbitrary: m)
  case Nil
  then show ?case by simp
next
  case (Cons k0 ks)
  obtain r m1 where r: "sync_entry env k0 m = (r, m1)" by (cases "sync_entry env k0 m")
  with Cons.prems(1) have rn: "r = None" by (cases r) auto
  from r rn Cons.prems(1) have l: "fst (sync_loop env ks m1) = None" by simp
  show ?case
  proof (cases "k = k0")
    case True
    from r rn have "settled_key m1 k0" using sync_entry_self [of env k0 m] by simp
    from sync_loop_preserves_settled [OF this l] True r rn show ?thesis by simp
  next
    case False
    with Cons.prems(2) have "k \<in> set ks" by simp
    from Cons.IH [OF l this] r rn show ?thesis by simp
  qed
qed

lemma sync_loop_keys:
  "fst ` set (cache (snd (sync_loop env ks m))) \<subseteq> fst ` set (cache m)"
proof (induction ks arbitrary: m)
  case Nil
  then show ?case by simp
next
  case (Cons k ks)
  obtain r m1 where r: "sync_entry env k m = (r, m1)" by (cases "sync_entry env k m")
  have k1: "fst ` set (cache m1) \<subseteq> fst ` set (cache m)"
    using sync_entry_keys [of env k m] r by simp
  show ?case
  proof (cases r)
    case None
    with r Cons.IH [of m1] k1 show ?thesis by auto
  next
    case (Some e)
    with r k1 show ?thesis by simp
  qed
qed

lemma sync_loop_distinct:
  "distinct (map fst (cache m)) \<Longrightarrow> distinct (map fst (cache (snd (sync_loop env ks m))))"
proof (induction ks arbitrary: m)
  case Nil
  then show ?case by simp
next
  case (Cons k ks)
  obtain r m1 where r: "sync_entry env k m = (r, m1)" by (cases "sync_entry env k m")
  have d1: "distinct (map fst (cache m1))"
    using sync_entry_distinct [OF Cons.prems, of env k] r by simp
  show ?case
  proof (cases r)
    case None
    with r Cons.IH [OF d1] show ?thesis by simp
  next
    case (Some e)
    with r d1 show ?thesis by simp
  qed
qed

lemma sync_loop_scheduling [simp]:
  "scheduling (snd (sync_loop env ks m)) = scheduling m"
proof (induction ks arbitrary: m)
  case Nil
  then show ?case by simp
next
  case (Cons k ks)
  obtain r m1 where r: "sync_entry env k m = (r, m1)" by (cases "sync_entry env k m")
  have "scheduling m1 = scheduling m" using sync_entry_scheduling [of env k m] r by simp
  with r Cons.IH [of m1] show ?case by (cases r) simp_all
qed

lemma pass_no_empty_entry:
  assumes d: "distinct (map fst (cache m))" and ok: "fst (syncSecrets_pass env m) = None"
    and mem: "(k, e) \<in> set (cache (snd (syncSecrets_pass env m)))"
  shows "e_configMap e \<noteq> None"
proof -
  let ?m' = "snd (syncSecrets_pass env m)"
  have d': "distinct (map fst (cache ?m'))"
    using d by (simp add: syncSecrets_pass_def sync_loop_distinct)
  with mem have lk: "map_of (cache ?m') k = Some e" by simp
  from mem have "k \<in> fst ` set (cache ?m')" by force
  then have "k \<in> fst ` set (cache m)"
    using sync_loop_keys [of env "map fst (cache m)" m] by (auto simp: syncSecrets_pass_def)
  then have "k \<in> set (map fst (cache m))" by simp
  with ok have "settled_key ?m' k"
    unfolding syncSecrets_pass_def by (intro sync_loop_settles)
  with lk show ?thesis by (simp add: settled_key_def)
qed

subsection \<open>The scheduler\<close>

lemma syncSecrets_pass_scheduling [simp]:
  "scheduling (snd (syncSecrets_pass env m)) = scheduling m"
  by (simp add: syncSecrets_pass_def)

lemma syncSecrets_not_ready:
  "\<not> isReady m \<Longrightarrow> syncSecrets env m = m\<lparr>isPendingSync := True\<rparr>"
  by (simp add: syncSecrets_def)

lemma syncSecrets_ready:
  assumes "isReady m"
  shows "scheduling (syncSecrets env m) =
     (False, False,
      inflight m @ [fst (syncSecrets_pass env
         (m\<lparr>isReady := False, isPendingSync := False, passesStarted := Suc (passesStarted m)\<rparr>))],
      timers m, Suc (passesStarted m))"
proof -
  let ?m1 = "m\<lparr>isReady := False, isPendingSync := False, passesStarted := Suc (passesStarted m)\<rparr>"
  obtain r m2 where p: "syncSecrets_pass env ?m1 = (r, m2)"
    by (cases "syncSecrets_pass env ?m1")
  have "scheduling m2 = scheduling ?m1"
    using syncSecrets_pass_scheduling [of env ?m1] p by simp
  then have f: "isReady m2 = False" "isPendingSync m2 = False" "inflight m2 = inflight m"
    "timers m2 = timers m" "passesStarted m2 = Suc (passesStarted m)"
    by (simp_all add: scheduling_def)
  from assms p have "syncSecrets env m = m2\<lparr>inflight := inflight m2 @ [r]\<rparr>"
    by (simp add: syncSecrets_def Let_def)
  with f p show ?thesis by (simp add: scheduling_def)
qed

text \<open>Before \<open>Started\<close>.\<close>


lemma not_started_new: "not_started new_manager"
  by (simp add: not_started_def new_manager_def scheduling_def)

lemma not_started_syncSecrets:
  "not_started m \<Longrightarrow> syncSecrets env m = m"
  by (simp add: not_started_def scheduling_def syncSecrets_def)

lemma not_started_step:
  assumes "not_started m" and "e \<noteq> Started"
  shows "not_started (step env m e)"
proof (cases e)
  case (ConfigMapEvent t cm)
  let ?m2 = "(write_log (LogInfo (''ConfigMap '' @ cm_name cm @ '' '' @ type_name t)) m)
      \<lparr>cache := AList.update (configMap_key cm)
          ((spread_entry (cache m) (configMap_key cm))\<lparr>e_configMap := (if t = DELETED then None else Some cm)\<rparr>)
          (cache m)\<rparr>"
  have "not_started ?m2" using assms(1) by (simp add: not_started_def)
  then have "not_started (syncSecrets env ?m2)" by (simp add: not_started_syncSecrets)
  with ConfigMapEvent show ?thesis by (simp add: onConfigMapEvent_def Let_def)
next
  case (SecretEvent t s)
  let ?m2 = "(write_log (LogInfo (''Secret '' @ js_string (s_name s) @ '' '' @ type_name t)) m)
      \<lparr>cache := AList.update (secret_key s)
          ((spread_entry (cache m) (secret_key s))\<lparr>e_secret := (if t = DELETED then None else Some s)\<rparr>)
          (cache m)\<rparr>"
  have "not_started ?m2" using assms(1) by (simp add: not_started_def)
  then have "not_started (syncSecrets env ?m2)" by (simp add: not_started_syncSecrets)
  with SecretEvent show ?thesis by (simp add: onSecretEvent_def Let_def)
next
  case Trigger
  with assms(1) show ?thesis by (simp add: not_started_syncSecrets)
next
  case Started
  with assms(2) show ?thesis by simp
next
  case Settled
  with assms(1) show ?thesis by (simp add: settled_def not_started_def scheduling_def)
next
  case TimerFired
  with assms(1) show ?thesis by (simp add: not_started_def scheduling_def)
qed

lemma run_snoc: "run env m (evs @ [e]) = step env (run env m evs) e"
  by (simp add: run_def)

lemma not_started_run:
  "Started \<notin> set evs \<Longrightarrow> not_started (run env new_manager evs)"
proof (induction evs rule: rev_induct)
  case Nil
  then show ?case by (simp add: run_def not_started_new)
next
  case (snoc e evs)
  then have "not_started (run env new_manager evs)" and "e \<noteq> Started" by auto
  then show ?case unfolding run_snoc by (rule not_started_step)
qed

lemma one_at_a_time_syncSecrets:
  assumes "one_at_a_time m" and "scheduling m' = scheduling m"
  shows "one_at_a_time (syncSecrets env m')"
proof (cases "isReady m'")
  case True
  with assms have "inflight m' = []" by (simp add: one_at_a_time_def scheduling_def)
  with syncSecrets_ready [OF True, of env] show ?thesis
    by (simp add: one_at_a_time_def scheduling_def)
next
  case False
  with assms show ?thesis
    by (simp add: syncSecrets_not_ready one_at_a_time_def scheduling_def)
qed

lemma one_at_a_time_step:
  assumes "one_at_a_time m" and "e \<noteq> Started"
  shows "one_at_a_time (step env m e)"
proof (cases e)
  case (ConfigMapEvent t cm)
  show ?thesis unfolding ConfigMapEvent step.simps onConfigMapEvent_def Let_def
    by (rule one_at_a_time_syncSecrets [OF assms(1)]) simp
next
  case (SecretEvent t s)
  show ?thesis unfolding SecretEvent step.simps onSecretEvent_def Let_def
    by (rule one_at_a_time_syncSecrets [OF assms(1)]) simp
next
  case Trigger
  show ?thesis unfolding Trigger step.simps
    by (rule one_at_a_time_syncSecrets [OF assms(1)]) simp
next
  case Started
  with assms(2) show ?thesis by simp
next
  case Settled
  with assms(1) show ?thesis
    by (cases "inflight m") (auto simp add: settled_def one_at_a_time_def Let_def write_log_def)
next
  case TimerFired
  show ?thesis
  proof (cases "timers m = 0")
    case True
    with assms(1) TimerFired show ?thesis by simp
  next
    case False
    have "one_at_a_time (m\<lparr>timers := timers m - 1\<rparr>)"
      using assms(1) by (simp add: one_at_a_time_def)
    from one_at_a_time_syncSecrets [OF this refl] False TimerFired show ?thesis by simp
  qed
qed

lemma started_step:
  assumes "not_started m"
  shows "one_at_a_time (step env m Started) \<and> passesStarted (step env m Started) = 1
     \<and> length (inflight (step env m Started)) = 1"
proof -
  have r: "isReady (m\<lparr>isReady := True\<rparr>)" by simp
  from syncSecrets_ready [OF r, of env] assms show ?thesis
    by (simp add: one_at_a_time_def scheduling_def not_started_def)
qed

lemma one_at_a_time_run:
  "count_list evs Started \<le> 1 \<Longrightarrow> one_at_a_time (run env new_manager evs)"
proof (induction evs rule: rev_induct)
  case Nil
  then show ?case by (simp add: run_def one_at_a_time_def new_manager_def)
next
  case (snoc e evs)
  show ?case
  proof (cases "e = Started")
    case True
    with snoc.prems have "count_list evs Started = 0" by simp
    then have "Started \<notin> set evs" by (simp add: count_list_0_iff)
    then have "not_started (run env new_manager evs)" by (rule not_started_run)
    then have "one_at_a_time (step env (run env new_manager evs) Started)"
      using started_step by blast
    with True show ?thesis by (simp only: run_snoc)
  next
    case False
    with snoc.prems have "count_list evs Started \<le> 1" by simp
    then have "one_at_a_time (run env new_manager evs)" by (rule snoc.IH)
    with False show ?thesis by (simp add: run_snoc one_at_a_time_step)
  qed
qed

lemma run_triggers_busy:
  "\<not> isReady m \<Longrightarrow> run env m (replicate n Trigger) = (if n = 0 then m else m\<lparr>isPendingSync := True\<rparr>)"
proof (induction n)
  case 0
  then show ?case by (simp add: run_def)
next
  case (Suc n)
  have "replicate (Suc n) Trigger = replicate n Trigger @ [Trigger]"
    by (simp add: replicate_append_same)
  then have "run env m (replicate (Suc n) Trigger) = syncSecrets env (run env m (replicate n Trigger))"
    by (simp add: run_snoc)
  with Suc show ?case by (simp add: syncSecrets_not_ready)
qed

lemma sync_loop_converged:
  assumes "\<forall>k \<in> set ks. \<exists>e s cm. map_of (cache m) k = Some e \<and> e_secret e = Some s \<and>
             e_configMap e = Some cm \<and>
             map_of (s_labels s) source_configmap_version_label = Some (cm_resourceVersion cm)"
  shows "sync_loop env ks m = (None, m)"
  using assms
proof (induction ks)
  case Nil
  then show ?case by simp
next
  case (Cons k ks)
  then obtain e s cm where "map_of (cache m) k = Some e" "e_secret e = Some s"
      "e_configMap e = Some cm"
      "map_of (s_labels s) source_configmap_version_label = Some (cm_resourceVersion cm)"
    by auto
  then have "sync_entry env k m = (None, m)" by (simp add: sync_entry_def)
  with Cons show ?case by simp
qed

subsection \<open>The materializer, case by case\<close>

lemma createSecretWithConfigMapData_result:
  "createSecretWithConfigMapData env cm name d ex m = (r, m') \<Longrightarrow>
     calls m' = calls m @ [case ex of
        None \<Rightarrow> CreateNamespacedSecret (cm_namespace cm)
           \<lparr>s_name = name, s_namespace = cm_namespace cm,
            s_labels = [(source_configmap_label, cm_name cm),
                        (source_configmap_version_label, cm_resourceVersion cm)],
            s_data = Some (map (\<lambda>(key, v). (key, toBase64 v)) d)\<rparr>
      | Some _ \<Rightarrow> ReplaceNamespacedSecret name (cm_namespace cm)
           \<lparr>s_name = name, s_namespace = cm_namespace cm,
            s_labels = [(source_configmap_label, cm_name cm),
                        (source_configmap_version_label, cm_resourceVersion cm)],
            s_data = Some (map (\<lambda>(key, v). (key, toBase64 v)) d)\<rparr>]"
  using createSecretWithConfigMapData_state [of env cm name d ex m] by simp

text \<open>The materializer when no key is to be read, and when one is.\<close>

lemma createSecretForConfigMap_without_key:
  assumes "js_get (cm_data cm) (sourceKey_of cm) = Some src"
    and "map_of (cm_labels cm) decryption_secret_label = None \<or>
         map_of (cm_labels cm) decryption_secret_label = Some []"
  shows "createSecretForConfigMap env cm ex m =
     (case parseEnvContent env src None of
        Inl e \<Rightarrow> (Inl (DecryptionFailed e), record_call (ParseEnvContent src None) m)
      | Inr d \<Rightarrow> createSecretWithConfigMapData env cm (map_of (cm_labels cm) target_secret_label) d ex
                  (record_call (ParseEnvContent src None) m))"
  using assms
  by (auto simp add: createSecretForConfigMap_def extractConfigFromEncryptedEnv_def Let_def
        split: sum.splits)

lemma createSecretForConfigMap_with_key:
  assumes "js_get (cm_data cm) (sourceKey_of cm) = Some src"
    and "map_of (cm_labels cm) decryption_secret_label = Some n" and "n \<noteq> []"
  shows "createSecretForConfigMap env cm ex m =
     (case readNamespacedSecret env (calls m) n (cm_namespace cm) of
        Inl e \<Rightarrow> (Inl (ClusterError e), record_call (ReadNamespacedSecret n (cm_namespace cm)) m)
      | Inr ks \<Rightarrow>
          (case js_get (s_data ks) (keySecretKey_of cm) of
             None \<Rightarrow> (Inl (MissingDecryptionKey (keySecretKey_of cm) n),
                      record_call (ReadNamespacedSecret n (cm_namespace cm)) m)
           | Some (JsInherited p) \<Rightarrow> (Inl (TypeError ''ERR_INVALID_ARG_TYPE''),
                      record_call (ReadNamespacedSecret n (cm_namespace cm)) m)
           | Some (JsString v) \<Rightarrow>
               (case parseEnvContent env src (Some (base64ToUtf8 env v)) of
                  Inl e \<Rightarrow> (Inl (DecryptionFailed e),
                     record_call (ParseEnvContent src (Some (base64ToUtf8 env v)))
                       (record_call (ReadNamespacedSecret n (cm_namespace cm)) m))
                | Inr d \<Rightarrow>
                    createSecretWithConfigMapData env cm
                      (map_of (cm_labels cm) target_secret_label) d ex
                      (record_call (ParseEnvContent src (Some (base64ToUtf8 env v)))
                         (record_call (ReadNamespacedSecret n (cm_namespace cm)) m)))))"
  using assms
  by (simp add: createSecretForConfigMap_def extractConfigFromEncryptedEnv_def
        getDecryptionSecret_def Let_def split: sum.splits option.splits js_value.splits)

lemma createSecretForConfigMap_success:
  assumes ok: "createSecretForConfigMap env cm ex m = (Inr r, m')"
  shows "\<exists>pre src key data body.
     calls m' = calls m @ pre @ [ParseEnvContent src key,
        case ex of None \<Rightarrow> CreateNamespacedSecret (cm_namespace cm) body
                 | Some _ \<Rightarrow> ReplaceNamespacedSecret (s_name body) (s_namespace body) body] \<and>
     js_get (cm_data cm) (sourceKey_of cm) = Some src \<and>
     parseEnvContent env src key = Inr data \<and>
     body = \<lparr>s_name = map_of (cm_labels cm) target_secret_label, s_namespace = cm_namespace cm,
            s_labels = [(source_configmap_label, cm_name cm),
                        (source_configmap_version_label, cm_resourceVersion cm)],
            s_data = Some (map (\<lambda>(key, v). (key, toBase64 v)) data)\<rparr>"
proof -
  let ?goal = ?thesis
  obtain src where src: "js_get (cm_data cm) (sourceKey_of cm) = Some src"
    using ok by (cases "js_get (cm_data cm) (sourceKey_of cm)")
      (simp_all add: createSecretForConfigMap_def)
  let ?tgt = "map_of (cm_labels cm) target_secret_label"
  let ?body = "\<lambda>data. \<lparr>s_name = ?tgt, s_namespace = cm_namespace cm,
            s_labels = [(source_configmap_label, cm_name cm),
                        (source_configmap_version_label, cm_resourceVersion cm)],
            s_data = Some (map (\<lambda>(key, v). (key, toBase64 v)) data)\<rparr>"
  let ?w = "\<lambda>data. case ex of None \<Rightarrow> CreateNamespacedSecret (cm_namespace cm) (?body data)
                 | Some _ \<Rightarrow> ReplaceNamespacedSecret (s_name (?body data)) (s_namespace (?body data)) (?body data)"
  have fin: "\<And>pre key data m1. createSecretWithConfigMapData env cm ?tgt data ex m1 = (Inr r, m') \<Longrightarrow>
      calls m1 = calls m @ pre @ [ParseEnvContent src key] \<Longrightarrow>
      parseEnvContent env src key = Inr data \<Longrightarrow> ?goal"
  proof -
    fix pre key data m1
    assume w: "createSecretWithConfigMapData env cm ?tgt data ex m1 = (Inr r, m')"
      and c: "calls m1 = calls m @ pre @ [ParseEnvContent src key]"
      and p: "parseEnvContent env src key = Inr data"
    from createSecretWithConfigMapData_result [OF w] c
    have "calls m' = calls m @ pre @ [ParseEnvContent src key, ?w data]"
      by (simp split: option.splits)
    with src p show ?goal by blast
  qed
  show ?thesis
  proof (cases "map_of (cm_labels cm) decryption_secret_label = None \<or>
         map_of (cm_labels cm) decryption_secret_label = Some []")
    case True
    note eq = createSecretForConfigMap_without_key [OF src True, of env ex m]
    show ?thesis
    proof (cases "parseEnvContent env src None")
      case (Inl e)
      with eq ok show ?thesis by simp
    next
      case (Inr d)
      note pr = this
      with eq ok have "createSecretWithConfigMapData env cm ?tgt d ex
          (record_call (ParseEnvContent src None) m) = (Inr r, m')" by simp
      then show ?thesis by (rule fin [where pre = "[]" and key = None]) (simp_all add: pr)
    qed
  next
    case False
    then obtain n where n: "map_of (cm_labels cm) decryption_secret_label = Some n" "n \<noteq> []"
      by (cases "map_of (cm_labels cm) decryption_secret_label") auto
    note eq = createSecretForConfigMap_with_key [OF src n, of env ex m]
    show ?thesis
    proof (cases "readNamespacedSecret env (calls m) n (cm_namespace cm)")
      case (Inl e)
      with eq ok show ?thesis by simp
    next
      case (Inr ks)
      note rd = this
      show ?thesis
      proof (cases "js_get (s_data ks) (keySecretKey_of cm)")
        case None
        with eq ok rd show ?thesis by simp
      next
        case (Some entry)
        note en = this
        show ?thesis
        proof (cases entry)
          case (JsInherited p)
          with eq ok rd en show ?thesis by simp
        next
          case (JsString v)
          note str = this
          show ?thesis
          proof (cases "parseEnvContent env src (Some (base64ToUtf8 env v))")
            case (Inl e)
            with eq ok rd en str show ?thesis by simp
          next
            case (Inr d)
            note pr = this
            with eq ok rd en str have "createSecretWithConfigMapData env cm ?tgt d ex
              (record_call (ParseEnvContent src (Some (base64ToUtf8 env v)))
                 (record_call (ReadNamespacedSecret n (cm_namespace cm)) m)) = (Inr r, m')" by simp
            then show ?thesis
              by (rule fin [where pre = "[ReadNamespacedSecret n (cm_namespace cm)]"
                    and key = "Some (base64ToUtf8 env v)"])
                (simp_all add: pr)
          qed
        qed
      qed
    qed
  qed
qed

lemma createSecretForConfigMap_never_creates:
  assumes "createSecretForConfigMap env cm (Some s) m = (r, m')"
    and "CreateNamespacedSecret ns b \<in> set (calls m')"
  shows "CreateNamespacedSecret ns b \<in> set (calls m)"
  using assms
  unfolding createSecretForConfigMap_def Let_def
  by (auto split: option.splits sum.splits prod.splits if_splits
        dest!: getDecryptionSecret_stateD extractConfig_stateD createSecretWithConfigMapData_result)

lemma payload_lookup:
  "map_of (map (\<lambda>(key, v). (key, toBase64 v)) data) k = map_option toBase64 (map_of data k)"
  by (induction data) auto

text \<open>
  A decryption-secret-key label that names an inherited property passes the test against
  \<^verbatim>\<open>undefined\<close>; \<^verbatim>\<open>Buffer.from\<close> then throws, and the error is not the one for a missing key.
\<close>

lemma inherited_decryption_key_is_a_type_error:
  "keySecretKey_of inherited_key_config = ''constructor'' \<and>
   createSecretForConfigMap example_env inherited_key_config None new_manager
     = (Inl (TypeError ''ERR_INVALID_ARG_TYPE''),
        new_manager\<lparr>calls := [ReadNamespacedSecret ''key-secret'' ''default'']\<rparr>)"
  by code_simp

subsection \<open>What one iteration does right\<close>

text \<open>
  The rules below hold of the iteration over an entry, whatever the rest of the cache
  holds. The pass reaches the entry only when no entry before it throws.
\<close>

lemma missing_source_key_fails:
  "js_get (cm_data cm) (sourceKey_of cm) = None \<Longrightarrow>
     createSecretForConfigMap env cm existingSecret m
       = (Inl (MissingSourceKey (sourceKey_of cm) (cm_name cm)), m)"
  by (simp add: createSecretForConfigMap_def)

lemma sync_entry_missing_source_key:
  assumes lk: "map_of (cache m) secretName = Some e" and cm: "e_configMap e = Some cm"
    and miss: "js_get (cm_data cm) (sourceKey_of cm) = None"
  shows "fst (sync_entry env secretName m) = None \<and>
         calls (snd (sync_entry env secretName m)) = calls m \<and>
         cache (snd (sync_entry env secretName m)) = cache m"
proof -
  have mb: "\<And>f ex m'. materialize_branch env f secretName (Some cm) ex m'
      = write_log (LogError (MissingSourceKey (sourceKey_of cm) (cm_name cm)) (f @ secretName)) m'"
    by (simp add: materialize_branch_def missing_source_key_fails [OF miss])
  from lk cm show ?thesis
    by (simp add: sync_entry_def Let_def mb split: option.splits)
qed

lemma sync_entry_collects_empty_entry:
  assumes "map_of (cache m) secretName = Some e" and "e_secret e = None" and "e_configMap e = None"
  shows "sync_entry env secretName m = (None, m\<lparr>cache := AList.delete secretName (cache m)\<rparr>)"
  using assms by (simp add: sync_entry_def)

lemma sync_entry_replaces_stale_secret:
  "map_of (cache m) secretName = Some e \<and> e_secret e = Some s \<and> e_configMap e = Some cm \<and>
   map_of (s_labels s) source_configmap_version_label \<noteq> Some (cm_resourceVersion cm) \<and>
   m0 = write_log (LogInfo (''ConfigMap for '' @ secretName @ '' updated. Updating secret.'')) m
   \<longrightarrow>
     fst (sync_entry env secretName m) = None \<and>
     (\<forall>ns b. CreateNamespacedSecret ns b \<in> set (calls (snd (sync_entry env secretName m)))
         \<longrightarrow> CreateNamespacedSecret ns b \<in> set (calls m)) \<and>
     (\<forall>body m'. createSecretForConfigMap env cm (Some s) m0 = (Inr body, m') \<longrightarrow>
         (\<exists>data. last (calls (snd (sync_entry env secretName m))) =
            ReplaceNamespacedSecret (map_of (cm_labels cm) target_secret_label) (cm_namespace cm)
              \<lparr>s_name = map_of (cm_labels cm) target_secret_label, s_namespace = cm_namespace cm,
               s_labels = [(source_configmap_label, cm_name cm),
                           (source_configmap_version_label, cm_resourceVersion cm)],
               s_data = Some (map (\<lambda>(key, v). (key, toBase64 v)) data)\<rparr>) \<and>
         map_of (cache (snd (sync_entry env secretName m))) secretName
            = Some (e\<lparr>e_secret := Some body\<rparr>)) \<and>
     (\<forall>err m'. createSecretForConfigMap env cm (Some s) m0 = (Inl err, m') \<longrightarrow>
         cache (snd (sync_entry env secretName m)) = cache m \<and>
         last (logs (snd (sync_entry env secretName m)))
            = LogError err (''Failed to update secret '' @ secretName))"
proof (intro impI)
  assume a: "map_of (cache m) secretName = Some e \<and> e_secret e = Some s \<and> e_configMap e = Some cm \<and>
   map_of (s_labels s) source_configmap_version_label \<noteq> Some (cm_resourceVersion cm) \<and>
   m0 = write_log (LogInfo (''ConfigMap for '' @ secretName @ '' updated. Updating secret.'')) m"
  let ?r = "sync_entry env secretName m"
  have se: "?r = (None, materialize_branch env ''Failed to update secret '' secretName (Some cm) (Some s) m0)"
    using a by (simp add: sync_entry_def)
  obtain r m1 where c: "createSecretForConfigMap env cm (Some s) m0 = (r, m1)"
    by (cases "createSecretForConfigMap env cm (Some s) m0")
  note fr = createSecretForConfigMap_frameD [OF c]
  have m0c: "calls m0 = calls m" "cache m0 = cache m" using a by simp_all
  have calls_r: "calls (snd ?r) = calls m1"
    using c by (cases r) (simp_all add: se materialize_branch_def)
  have one: "fst ?r = None" by (simp add: se)
  have two: "\<forall>ns b. CreateNamespacedSecret ns b \<in> set (calls (snd ?r))
         \<longrightarrow> CreateNamespacedSecret ns b \<in> set (calls m)"
    using createSecretForConfigMap_never_creates [OF c] calls_r m0c by simp
  have three: "\<forall>body m'. createSecretForConfigMap env cm (Some s) m0 = (Inr body, m') \<longrightarrow>
         (\<exists>data. last (calls (snd ?r)) =
            ReplaceNamespacedSecret (map_of (cm_labels cm) target_secret_label) (cm_namespace cm)
              \<lparr>s_name = map_of (cm_labels cm) target_secret_label, s_namespace = cm_namespace cm,
               s_labels = [(source_configmap_label, cm_name cm),
                           (source_configmap_version_label, cm_resourceVersion cm)],
               s_data = Some (map (\<lambda>(key, v). (key, toBase64 v)) data)\<rparr>) \<and>
         map_of (cache (snd ?r)) secretName = Some (e\<lparr>e_secret := Some body\<rparr>)"
  proof (intro allI impI)
    fix body m' assume ok: "createSecretForConfigMap env cm (Some s) m0 = (Inr body, m')"
    with c have r: "r = Inr body" "m1 = m'" by simp_all
    from createSecretForConfigMap_success [OF ok] obtain pre src key data where
      "calls m' = calls m0 @ pre @ [ParseEnvContent src key,
          ReplaceNamespacedSecret (map_of (cm_labels cm) target_secret_label) (cm_namespace cm)
            \<lparr>s_name = map_of (cm_labels cm) target_secret_label, s_namespace = cm_namespace cm,
             s_labels = [(source_configmap_label, cm_name cm),
                         (source_configmap_version_label, cm_resourceVersion cm)],
             s_data = Some (map (\<lambda>(key, v). (key, toBase64 v)) data)\<rparr>]"
      by auto
    with calls_r r a have l: "last (calls (snd ?r)) =
            ReplaceNamespacedSecret (map_of (cm_labels cm) target_secret_label) (cm_namespace cm)
              \<lparr>s_name = map_of (cm_labels cm) target_secret_label, s_namespace = cm_namespace cm,
               s_labels = [(source_configmap_label, cm_name cm),
                           (source_configmap_version_label, cm_resourceVersion cm)],
               s_data = Some (map (\<lambda>(key, v). (key, toBase64 v)) data)\<rparr>"
      by simp
    have "cache (snd ?r) = AList.map_entry secretName (\<lambda>e. e\<lparr>e_secret := Some body\<rparr>) (cache m)"
      using ok fr(1) r m0c by (simp add: se materialize_branch_def)
    with a have "map_of (cache (snd ?r)) secretName = Some (e\<lparr>e_secret := Some body\<rparr>)"
      by (simp add: AList.map_of_map_entry)
    with l show "(\<exists>data. last (calls (snd ?r)) =
            ReplaceNamespacedSecret (map_of (cm_labels cm) target_secret_label) (cm_namespace cm)
              \<lparr>s_name = map_of (cm_labels cm) target_secret_label, s_namespace = cm_namespace cm,
               s_labels = [(source_configmap_label, cm_name cm),
                           (source_configmap_version_label, cm_resourceVersion cm)],
               s_data = Some (map (\<lambda>(key, v). (key, toBase64 v)) data)\<rparr>) \<and>
         map_of (cache (snd ?r)) secretName = Some (e\<lparr>e_secret := Some body\<rparr>)"
      by blast
  qed
  have four: "\<forall>err m'. createSecretForConfigMap env cm (Some s) m0 = (Inl err, m') \<longrightarrow>
         cache (snd ?r) = cache m \<and>
         last (logs (snd ?r)) = LogError err (''Failed to update secret '' @ secretName)"
  proof (intro allI impI)
    fix err m' assume bad: "createSecretForConfigMap env cm (Some s) m0 = (Inl err, m')"
    with c have r: "r = Inl err" "m1 = m'" by simp_all
    from bad fr(1) r m0c
    show "cache (snd ?r) = cache m \<and>
         last (logs (snd ?r)) = LogError err (''Failed to update secret '' @ secretName)"
      by (simp add: se materialize_branch_def)
  qed
  from one two three four
  show "fst ?r = None \<and>
     (\<forall>ns b. CreateNamespacedSecret ns b \<in> set (calls (snd ?r))
         \<longrightarrow> CreateNamespacedSecret ns b \<in> set (calls m)) \<and>
     (\<forall>body m'. createSecretForConfigMap env cm (Some s) m0 = (Inr body, m') \<longrightarrow>
         (\<exists>data. last (calls (snd ?r)) =
            ReplaceNamespacedSecret (map_of (cm_labels cm) target_secret_label) (cm_namespace cm)
              \<lparr>s_name = map_of (cm_labels cm) target_secret_label, s_namespace = cm_namespace cm,
               s_labels = [(source_configmap_label, cm_name cm),
                           (source_configmap_version_label, cm_resourceVersion cm)],
               s_data = Some (map (\<lambda>(key, v). (key, toBase64 v)) data)\<rparr>) \<and>
         map_of (cache (snd ?r)) secretName = Some (e\<lparr>e_secret := Some body\<rparr>)) \<and>
     (\<forall>err m'. createSecretForConfigMap env cm (Some s) m0 = (Inl err, m') \<longrightarrow>
         cache (snd ?r) = cache m \<and>
         last (logs (snd ?r)) = LogError err (''Failed to update secret '' @ secretName))"
    by blast
qed

subsection \<open>Coalescing\<close>

lemma coalesced_rerun:
  assumes nr: "\<not> isReady m" and fl: "inflight m = [outcome]" and tm: "timers m = 0" and n: "0 < n"
  shows "passesStarted (run env m (replicate n Trigger @ [Settled])) = passesStarted m"
    and "calls (run env m (replicate n Trigger @ [Settled])) = calls m"
    and "timers (run env m (replicate n Trigger @ [Settled])) = 1"
    and "inflight (run env m (replicate n Trigger @ [Settled])) = []"
    and "passesStarted (run env m (replicate n Trigger @ [Settled, TimerFired, Settled]))
           = Suc (passesStarted m)"
    and "timers (run env m (replicate n Trigger @ [Settled, TimerFired, Settled])) = 0"
    and "inflight (run env m (replicate n Trigger @ [Settled, TimerFired, Settled])) = []"
    and "\<not> isPendingSync (run env m (replicate n Trigger @ [Settled, TimerFired, Settled]))"
proof -
  let ?m0 = "run env m (replicate n Trigger)"
  have m0: "?m0 = m\<lparr>isPendingSync := True\<rparr>"
    using run_triggers_busy [OF nr, of env n] n by simp
  let ?m1 = "run env m (replicate n Trigger @ [Settled])"
  have m1: "?m1 = settled (m\<lparr>isPendingSync := True\<rparr>)"
    using m0 by (simp add: run_def)
  have s1: "scheduling ?m1 = (True, True, [], 1, passesStarted m)"
    using fl tm by (simp add: m1 settled_def Let_def scheduling_def write_log_def)
  show "passesStarted ?m1 = passesStarted m" "timers ?m1 = 1" "inflight ?m1 = []"
    using s1 by (simp_all add: scheduling_def)
  show "calls ?m1 = calls m"
    using fl by (simp add: m1 settled_def Let_def write_log_def)
  let ?m2 = "syncSecrets env (?m1\<lparr>timers := timers ?m1 - 1\<rparr>)"
  have r: "isReady (?m1\<lparr>timers := timers ?m1 - 1\<rparr>)" using s1 by (simp add: scheduling_def)
  have "\<exists>r. scheduling ?m2 = (False, False, [r], 0, Suc (passesStarted m))"
    using syncSecrets_ready [OF r, of env] s1 by (simp add: scheduling_def)
  then obtain r' where s2: "scheduling ?m2 = (False, False, [r'], 0, Suc (passesStarted m))" ..
  have t: "step env ?m1 TimerFired = ?m2" using s1 by (simp add: scheduling_def)
  let ?m3 = "run env m (replicate n Trigger @ [Settled, TimerFired, Settled])"
  have "?m3 = step env (step env ?m1 TimerFired) Settled" by (simp add: run_def)
  then have m3: "?m3 = settled ?m2" using t by simp
  have s3: "scheduling ?m3 = (True, False, [], 0, Suc (passesStarted m))"
    using s2 unfolding m3 by (simp add: settled_def Let_def scheduling_def write_log_def)
  show "passesStarted ?m3 = Suc (passesStarted m)" "timers ?m3 = 0" "inflight ?m3 = []"
    "\<not> isPendingSync ?m3"
    using s3 by (simp_all add: scheduling_def)
qed

lemma pass_starts_when_idle:
  assumes "one_at_a_time m" and "e \<noteq> Started" and "passesStarted (step env m e) \<noteq> passesStarted m"
  shows "inflight m = []"
proof -
  have k: "\<And>m'. passesStarted (syncSecrets env m') \<noteq> passesStarted m \<Longrightarrow>
      isReady m' = isReady m \<Longrightarrow> passesStarted m' = passesStarted m \<Longrightarrow> inflight m = []"
  proof -
    fix m' assume p: "passesStarted (syncSecrets env m') \<noteq> passesStarted m"
      and s: "isReady m' = isReady m" "passesStarted m' = passesStarted m"
    have "isReady m'"
    proof (rule ccontr)
      assume "\<not> isReady m'"
      then have "syncSecrets env m' = m'\<lparr>isPendingSync := True\<rparr>" by (rule syncSecrets_not_ready)
      with p s show False by simp
    qed
    with s assms(1) show "inflight m = []" by (simp add: one_at_a_time_def)
  qed
  show ?thesis
  proof (cases e)
    case (ConfigMapEvent t cm)
    from assms(3) show ?thesis
      unfolding ConfigMapEvent step.simps onConfigMapEvent_def Let_def
      by (rule k) (simp_all add: write_log_def)
  next
    case (SecretEvent t s)
    from assms(3) show ?thesis
      unfolding SecretEvent step.simps onSecretEvent_def Let_def
      by (rule k) (simp_all add: write_log_def)
  next
    case Trigger
    from assms(3) show ?thesis
      unfolding Trigger step.simps by (rule k) simp_all
  next
    case Started
    with assms(2) show ?thesis by simp
  next
    case Settled
    with assms(3) show ?thesis
      by (cases "inflight m") (simp_all add: settled_def Let_def write_log_def split: if_splits)
  next
    case TimerFired
    show ?thesis
    proof (cases "timers m = 0")
      case True
      with TimerFired assms(3) show ?thesis by simp
    next
      case False
      with assms(3) TimerFired
      have "passesStarted (syncSecrets env (m\<lparr>timers := timers m - 1\<rparr>)) \<noteq> passesStarted m"
        by simp
      then show ?thesis by (rule k) simp_all
    qed
  qed
qed

subsection \<open>Keys\<close>

lemma key_split:
  "CHR ''/'' \<notin> set a \<Longrightarrow> CHR ''/'' \<notin> set b \<Longrightarrow> a @ ''/'' @ x = b @ ''/'' @ y \<Longrightarrow> a = b \<and> x = y"
proof (induction a arbitrary: b)
  case Nil
  then show ?case by (cases b) auto
next
  case (Cons c a)
  then show ?case by (cases b) auto
qed

text \<open>
  Two halves filed under one key by the watch callbacks name the same Secret: a namespace
  has no slash in it.
\<close>

lemma same_key_same_secret:
  assumes "secret_key s = configMap_key cm"
    and "CHR ''/'' \<notin> set (s_namespace s)" and "CHR ''/'' \<notin> set (cm_namespace cm)"
    and "s_name s = Some a" and "map_of (cm_labels cm) target_secret_label = Some b"
  shows "s_name s = map_of (cm_labels cm) target_secret_label \<and> s_namespace s = cm_namespace cm"
  using assms key_split [of "s_namespace s" "cm_namespace cm" a b]
  by (simp add: secret_key_def configMap_key_def js_string_def)

section \<open>The claims\<close>

text \<open>
  C1. An entry with the ConfigMap absent and the Secret present should get the delete rule and
  nothing else, without an error in the log. The code deletes the Secret and removes the
  entry, then goes on to the condition of the \<^verbatim>\<open>else if\<close>, which reads the absent ConfigMap:
  the pass is rejected with a \<open>TypeError\<close> and \<^verbatim>\<open>syncSecrets\<close> logs it. The run below is the
  test ``should delete an orphaned secret without logging errors''.
\<close>

theorem orphan_cleanup_logs_an_error:
  "calls (run example_env new_manager [Started, Settled, SecretEvent ADDED orphan_secret, Settled])
     = [DeleteNamespacedSecret (Some ''orphan-secret'') ''default''] \<and>
   cache (run example_env new_manager [Started, Settled, SecretEvent ADDED orphan_secret, Settled]) = [] \<and>
   last (logs (run example_env new_manager [Started, Settled, SecretEvent ADDED orphan_secret, Settled]))
     = LogError (TypeError ''metadata'') ''Failed to sync secrets''"
  by code_simp

text \<open>
  C2. A failure on one entry should not keep the pass from the other entries. Here the cluster
  refuses the delete of the first entry: the error is logged, the iteration then throws as in
  C1, and the pass ends without the create that the second entry is waiting for.
\<close>

theorem failed_delete_aborts_the_pass:
  "syncSecrets_pass rejecting_env (new_manager\<lparr>cache :=
       [(''default/orphan-secret'', \<lparr>e_secret = Some orphan_secret, e_configMap = None\<rparr>),
        (''default/other-secret'', \<lparr>e_secret = None, e_configMap = Some other_config\<rparr>)]\<rparr>)
   = (Some (TypeError ''metadata''),
      new_manager\<lparr>cache :=
          [(''default/orphan-secret'', \<lparr>e_secret = Some orphan_secret, e_configMap = None\<rparr>),
           (''default/other-secret'', \<lparr>e_secret = None, e_configMap = Some other_config\<rparr>)],
        calls := [DeleteNamespacedSecret (Some ''orphan-secret'') ''default''],
        logs := [LogInfo ''Manager created'',
                 LogInfo ''ConfigMap for default/orphan-secret not found. Deleting secret.'',
                 LogError (ClusterError ''forbidden'') ''Failed to delete secret default/orphan-secret'']\<rparr>)"
  by code_simp

text \<open>
  C3. Triggers are coalesced and passes do not overlap. A call of \<^verbatim>\<open>syncSecrets\<close> on a manager
  that is not ready changes the pending flag and nothing else. From a manager with a pass in
  flight, any positive number of triggers followed by the settling of the pass starts no pass and
  leaves one zero-delay timer; when that timer fires one pass starts, and once it has settled
  nothing is in flight, scheduled or pending: the triggers bought exactly one more pass. In
  every run of the event loop in which \<^verbatim>\<open>start\<close> completes at most once, at most one pass
  is in flight, and an event that starts a pass finds none in flight.
\<close>

theorem triggers_coalesce_and_passes_never_overlap:
  "(\<not> isReady m \<longrightarrow> syncSecrets env m = m\<lparr>isPendingSync := True\<rparr>) \<and>
   (\<not> isReady m \<and> inflight m = [outcome] \<and> timers m = 0 \<and> 0 < n \<longrightarrow>
      passesStarted (run env m (replicate n Trigger @ [Settled])) = passesStarted m \<and>
      calls (run env m (replicate n Trigger @ [Settled])) = calls m \<and>
      timers (run env m (replicate n Trigger @ [Settled])) = 1 \<and>
      passesStarted (run env m (replicate n Trigger @ [Settled, TimerFired, Settled]))
         = Suc (passesStarted m) \<and>
      timers (run env m (replicate n Trigger @ [Settled, TimerFired, Settled])) = 0 \<and>
      inflight (run env m (replicate n Trigger @ [Settled, TimerFired, Settled])) = [] \<and>
      \<not> isPendingSync (run env m (replicate n Trigger @ [Settled, TimerFired, Settled]))) \<and>
   (count_list (evs @ [ev]) Started \<le> 1 \<longrightarrow>
      length (inflight (run env new_manager evs)) \<le> 1 \<and>
      (passesStarted (run env new_manager (evs @ [ev])) \<noteq> passesStarted (run env new_manager evs)
         \<longrightarrow> inflight (run env new_manager evs) = []))"
proof (intro conjI impI)
  assume "\<not> isReady m"
  then show "syncSecrets env m = m\<lparr>isPendingSync := True\<rparr>" by (rule syncSecrets_not_ready)
next
  assume c: "count_list (evs @ [ev]) Started \<le> 1"
  then have c': "count_list evs Started \<le> 1" by (simp split: if_splits)
  then have inv: "one_at_a_time (run env new_manager evs)" by (rule one_at_a_time_run)
  then show "length (inflight (run env new_manager evs)) \<le> 1" by (simp add: one_at_a_time_def)
  assume p: "passesStarted (run env new_manager (evs @ [ev])) \<noteq> passesStarted (run env new_manager evs)"
  show "inflight (run env new_manager evs) = []"
  proof (cases "ev = Started")
    case True
    with c have "count_list evs Started = 0" by simp
    then have "Started \<notin> set evs" by (simp add: count_list_0_iff)
    then have "not_started (run env new_manager evs)" by (rule not_started_run)
    then show ?thesis by (simp add: not_started_def scheduling_def)
  next
    case False
    note ne = this
    from p have q: "passesStarted (step env (run env new_manager evs) ev)
        \<noteq> passesStarted (run env new_manager evs)"
      unfolding run_snoc .
    show ?thesis
      using pass_starts_when_idle [of "run env new_manager evs" ev env] inv ne q by blast
  qed
qed (use coalesced_rerun [of m outcome n env] in simp_all)

theorem triggers_coalesce_and_passes_never_overlap_witness:
  "\<not> isReady busy_manager \<and> inflight busy_manager = [None] \<and> timers busy_manager = 0 \<and>
   syncSecrets example_env busy_manager = busy_manager\<lparr>isPendingSync := True\<rparr> \<and>
   passesStarted (run example_env busy_manager (replicate 2 Trigger @ [Settled, TimerFired, Settled]))
      = 2 \<and>
   count_list ([Started, Settled] @ [ConfigMapEvent ADDED my_config]) Started \<le> 1 \<and>
   passesStarted (run example_env new_manager ([Started, Settled] @ [ConfigMapEvent ADDED my_config]))
     \<noteq> passesStarted (run example_env new_manager [Started, Settled]) \<and>
   inflight (run example_env new_manager [Started, Settled]) = []"
proof -
  have a: "\<not> isReady busy_manager" "inflight busy_manager = [None]" "timers busy_manager = 0"
    "passesStarted busy_manager = 1"
    by (simp_all add: busy_manager_def new_manager_def)
  have c: "count_list ([Started, Settled] @ [ConfigMapEvent ADDED my_config]) Started \<le> 1"
    by simp
  have p: "passesStarted (run example_env new_manager ([Started, Settled] @ [ConfigMapEvent ADDED my_config]))
     \<noteq> passesStarted (run example_env new_manager [Started, Settled])"
    by code_simp
  from triggers_coalesce_and_passes_never_overlap [of busy_manager example_env None 2
      "[Started, Settled]" "ConfigMapEvent ADDED my_config"] a c p
  show ?thesis by simp
qed

text \<open>
  C4. An entry with both halves present whose Secret carries the ConfigMap's
  \<^verbatim>\<open>resourceVersion\<close> in its version label is left as it is: the iteration changes nothing,
  so it makes no call. A pass over a cache of such entries changes nothing either.
\<close>

theorem converged_entry_is_left_alone:
  "(map_of (cache m) secretName = Some e \<and> e_secret e = Some s \<and> e_configMap e = Some cm \<and>
    map_of (s_labels s) source_configmap_version_label = Some (cm_resourceVersion cm)
      \<longrightarrow> sync_entry env secretName m = (None, m)) \<and>
   ((\<forall>(k, e) \<in> set (cache m). \<exists>s cm. e_secret e = Some s \<and> e_configMap e = Some cm \<and>
        map_of (s_labels s) source_configmap_version_label = Some (cm_resourceVersion cm))
      \<longrightarrow> syncSecrets_pass env m = (None, m))"
proof (intro conjI impI)
  assume "map_of (cache m) secretName = Some e \<and> e_secret e = Some s \<and> e_configMap e = Some cm \<and>
    map_of (s_labels s) source_configmap_version_label = Some (cm_resourceVersion cm)"
  then show "sync_entry env secretName m = (None, m)" by (simp add: sync_entry_def)
next
  assume all: "\<forall>(k, e) \<in> set (cache m). \<exists>s cm. e_secret e = Some s \<and> e_configMap e = Some cm \<and>
        map_of (s_labels s) source_configmap_version_label = Some (cm_resourceVersion cm)"
  have "\<forall>k \<in> set (map fst (cache m)). \<exists>e s cm. map_of (cache m) k = Some e \<and> e_secret e = Some s \<and>
             e_configMap e = Some cm \<and>
             map_of (s_labels s) source_configmap_version_label = Some (cm_resourceVersion cm)"
  proof
    fix k assume "k \<in> set (map fst (cache m))"
    then obtain e where lk: "map_of (cache m) k = Some e"
      by (metis map_of_eq_None_iff not_Some_eq set_map)
    then have "(k, e) \<in> set (cache m)" by (rule map_of_SomeD)
    with all lk show "\<exists>e s cm. map_of (cache m) k = Some e \<and> e_secret e = Some s \<and>
             e_configMap e = Some cm \<and>
             map_of (s_labels s) source_configmap_version_label = Some (cm_resourceVersion cm)"
      by fastforce
  qed
  then show "syncSecrets_pass env m = (None, m)"
    unfolding syncSecrets_pass_def by (rule sync_loop_converged)
qed

theorem converged_entry_is_left_alone_witness:
  "map_of (cache converged_manager) ''default/my-secret''
      = Some \<lparr>e_secret = Some my_secret, e_configMap = Some my_config\<rparr> \<and>
   map_of (s_labels my_secret) source_configmap_version_label = Some (cm_resourceVersion my_config) \<and>
   sync_entry example_env ''default/my-secret'' converged_manager = (None, converged_manager) \<and>
   syncSecrets_pass example_env converged_manager = (None, converged_manager)"
proof -
  have a: "map_of (cache converged_manager) ''default/my-secret''
      = Some \<lparr>e_secret = Some my_secret, e_configMap = Some my_config\<rparr>"
    by (simp add: converged_manager_def)
  have b: "map_of (s_labels my_secret) source_configmap_version_label = Some (cm_resourceVersion my_config)"
    by (simp add: my_secret_def my_config_def source_configmap_version_label_def source_configmap_label_def)
  have c: "\<forall>(k, e) \<in> set (cache converged_manager). \<exists>s cm. e_secret e = Some s \<and> e_configMap e = Some cm \<and>
        map_of (s_labels s) source_configmap_version_label = Some (cm_resourceVersion cm)"
    using b by (simp add: converged_manager_def)
  from converged_entry_is_left_alone [of converged_manager "''default/my-secret''"
      "\<lparr>e_secret = Some my_secret, e_configMap = Some my_config\<rparr>" my_secret my_config example_env]
    a b c
  show ?thesis by simp
qed

text \<open>
  C5. An entry with both halves present whose Secret does not carry the ConfigMap's
  \<^verbatim>\<open>resourceVersion\<close> should be replaced by the pass. The iteration over such an entry does
  it (\<open>sync_entry_replaces_stale_secret\<close>: a replace under the target-secret label and the
  ConfigMap's namespace, no create, the cache untouched on failure), but the pass does not get
  to the entry when an entry before it has a Secret and no ConfigMap: that iteration throws as
  in C1. Below, the watches deliver an orphan Secret, then a ConfigMap at version 67890 and its
  Secret stamped 12345, before \<^verbatim>\<open>start\<close> completes. The first pass deletes the orphan and is
  rejected: no replace is issued and the cache still holds the Secret stamped 12345.
\<close>

theorem stale_entry_is_not_reached_behind_an_orphan:
  "calls (run example_env new_manager
      [SecretEvent ADDED orphan_secret, ConfigMapEvent ADDED my_config_v2,
       SecretEvent ADDED my_secret, Started, Settled])
     = [DeleteNamespacedSecret (Some ''orphan-secret'') ''default''] \<and>
   cache (run example_env new_manager
      [SecretEvent ADDED orphan_secret, ConfigMapEvent ADDED my_config_v2,
       SecretEvent ADDED my_secret, Started, Settled])
     = [(''default/my-secret'', \<lparr>e_secret = Some my_secret, e_configMap = Some my_config_v2\<rparr>)] \<and>
   map_of (s_labels my_secret) source_configmap_version_label = Some ''12345'' \<and>
   cm_resourceVersion my_config_v2 = ''67890'' \<and>
   inflight (run example_env new_manager
      [SecretEvent ADDED orphan_secret, ConfigMapEvent ADDED my_config_v2,
       SecretEvent ADDED my_secret, Started, Settled]) = [] \<and>
   last (logs (run example_env new_manager
      [SecretEvent ADDED orphan_secret, ConfigMapEvent ADDED my_config_v2,
       SecretEvent ADDED my_secret, Started, Settled]))
     = LogError (TypeError ''metadata'') ''Failed to sync secrets''"
  by code_simp

text \<open>
  C6. When the materialization of a ConfigMap succeeds, the last two calls are the parse and
  the write; with \<open>data\<close> the mapping the parser returned, the body written has the
  target-secret label as its name, the ConfigMap's namespace, the two labels naming the
  ConfigMap and its \<^verbatim>\<open>resourceVersion\<close>, and the keys of \<open>data\<close>, each with the base64
  encoding of its value.
\<close>

theorem materialized_secret_shape:
  "createSecretForConfigMap env cm existingSecret m = (Inr r, m') \<longrightarrow>
     (\<exists>pre src key data body payload.
        calls m' = calls m @ pre @ [ParseEnvContent src key,
           case existingSecret of
             None \<Rightarrow> CreateNamespacedSecret (cm_namespace cm) body
           | Some _ \<Rightarrow> ReplaceNamespacedSecret (s_name body) (s_namespace body) body] \<and>
        js_get (cm_data cm) (sourceKey_of cm) = Some src \<and>
        parseEnvContent env src key = Inr data \<and>
        s_name body = map_of (cm_labels cm) target_secret_label \<and>
        s_namespace body = cm_namespace cm \<and>
        s_labels body = [(source_configmap_label, cm_name cm),
                         (source_configmap_version_label, cm_resourceVersion cm)] \<and>
        s_data body = Some payload \<and>
        map fst payload = map fst data \<and>
        (\<forall>k. map_of payload k = map_option toBase64 (map_of data k)))"
proof
  assume "createSecretForConfigMap env cm existingSecret m = (Inr r, m')"
  from createSecretForConfigMap_success [OF this]
  obtain pre src key data body where
    c: "calls m' = calls m @ pre @ [ParseEnvContent src key,
           case existingSecret of
             None \<Rightarrow> CreateNamespacedSecret (cm_namespace cm) body
           | Some _ \<Rightarrow> ReplaceNamespacedSecret (s_name body) (s_namespace body) body]"
    and s: "js_get (cm_data cm) (sourceKey_of cm) = Some src"
    and p: "parseEnvContent env src key = Inr data"
    and b: "body = \<lparr>s_name = map_of (cm_labels cm) target_secret_label, s_namespace = cm_namespace cm,
            s_labels = [(source_configmap_label, cm_name cm),
                        (source_configmap_version_label, cm_resourceVersion cm)],
            s_data = Some (map (\<lambda>(key, v). (key, toBase64 v)) data)\<rparr>"
    by blast
  let ?payload = "map (\<lambda>(key, v). (key, toBase64 v)) data"
  have d: "s_data body = Some ?payload" by (simp add: b)
  have k: "map fst ?payload = map fst data" by (simp add: split_def)
  have l: "\<forall>k. map_of ?payload k = map_option toBase64 (map_of data k)"
    by (simp add: payload_lookup)
  from c s p b d k l show "\<exists>pre src key data body payload.
        calls m' = calls m @ pre @ [ParseEnvContent src key,
           case existingSecret of
             None \<Rightarrow> CreateNamespacedSecret (cm_namespace cm) body
           | Some _ \<Rightarrow> ReplaceNamespacedSecret (s_name body) (s_namespace body) body] \<and>
        js_get (cm_data cm) (sourceKey_of cm) = Some src \<and>
        parseEnvContent env src key = Inr data \<and>
        s_name body = map_of (cm_labels cm) target_secret_label \<and>
        s_namespace body = cm_namespace cm \<and>
        s_labels body = [(source_configmap_label, cm_name cm),
                         (source_configmap_version_label, cm_resourceVersion cm)] \<and>
        s_data body = Some payload \<and>
        map fst payload = map fst data \<and>
        (\<forall>k. map_of payload k = map_option toBase64 (map_of data k))"
    by (intro exI [of _ pre] exI [of _ src] exI [of _ key] exI [of _ data] exI [of _ body]
          exI [of _ ?payload]) simp
qed

theorem materialized_secret_shape_witness:
  "createSecretForConfigMap example_env my_config None new_manager
     = (Inr created_secret,
        new_manager\<lparr>calls := [ParseEnvContent (JsString ''KEY=value'') None,
                                CreateNamespacedSecret ''default'' created_secret]\<rparr>) \<and>
   s_data created_secret = Some [(''KEY'', ''dmFsdWU='')] \<and>
   (\<exists>pre src key data body payload.
        [ParseEnvContent (JsString ''KEY=value'') None, CreateNamespacedSecret ''default'' created_secret]
          = pre @ [ParseEnvContent src key, CreateNamespacedSecret ''default'' body] \<and>
        parseEnvContent example_env src key = Inr data \<and>
        s_name body = Some ''my-secret'' \<and>
        s_data body = Some payload \<and>
        (\<forall>k. map_of payload k = map_option toBase64 (map_of data k)))"
proof -
  have a: "createSecretForConfigMap example_env my_config None new_manager
     = (Inr created_secret,
        new_manager\<lparr>calls := [ParseEnvContent (JsString ''KEY=value'') None,
                                CreateNamespacedSecret ''default'' created_secret]\<rparr>)"
    by code_simp
  have t: "map_of (cm_labels my_config) target_secret_label = Some ''my-secret''"
    "cm_namespace my_config = ''default''"
    by (simp_all add: my_config_def)
  have c: "calls new_manager = []" by (simp add: new_manager_def)
  have d: "s_data created_secret = Some [(''KEY'', ''dmFsdWU='')]"
    by (simp add: created_secret_def)
  from materialized_secret_shape [of example_env my_config None new_manager created_secret
      "new_manager\<lparr>calls := [ParseEnvContent (JsString ''KEY=value'') None,
                                CreateNamespacedSecret ''default'' created_secret]\<rparr>"] a
  obtain pre src key data body payload where
    "calls (new_manager\<lparr>calls := [ParseEnvContent (JsString ''KEY=value'') None,
                                CreateNamespacedSecret ''default'' created_secret]\<rparr>)
       = calls new_manager @ pre @ [ParseEnvContent src key,
           CreateNamespacedSecret (cm_namespace my_config) body]"
    "parseEnvContent example_env src key = Inr data"
    "s_name body = map_of (cm_labels my_config) target_secret_label"
    "s_data body = Some payload"
    "\<forall>k. map_of payload k = map_option toBase64 (map_of data k)"
    by auto
  with t c have "[ParseEnvContent (JsString ''KEY=value'') None, CreateNamespacedSecret ''default'' created_secret]
          = pre @ [ParseEnvContent src key, CreateNamespacedSecret ''default'' body] \<and>
        parseEnvContent example_env src key = Inr data \<and>
        s_name body = Some ''my-secret'' \<and>
        s_data body = Some payload \<and>
        (\<forall>k. map_of payload k = map_option toBase64 (map_of data k))"
    by simp
  then have "\<exists>pre src key data body payload.
        [ParseEnvContent (JsString ''KEY=value'') None, CreateNamespacedSecret ''default'' created_secret]
          = pre @ [ParseEnvContent src key, CreateNamespacedSecret ''default'' body] \<and>
        parseEnvContent example_env src key = Inr data \<and>
        s_name body = Some ''my-secret'' \<and>
        s_data body = Some payload \<and>
        (\<forall>k. map_of payload k = map_option toBase64 (map_of data k))"
    by blast
  with a d show ?thesis by blast
qed

text \<open>
  C7, as stated, fails for a ConfigMap whose decryption-secret label is the empty string (a
  valid label value): the label is present, yet no Secret is read and the parser is called
  without a key, because the source tests the label for truthiness.
\<close>

theorem blank_decryption_label_reads_no_key:
  "map_of (cm_labels blank_label_config) decryption_secret_label = Some [] \<and>
   js_get (cm_data blank_label_config) (sourceKey_of blank_label_config)
     = Some (JsString ''KEY=value'') \<and>
   ReadNamespacedSecret [] ''default''
     \<notin> set (calls (snd (createSecretForConfigMap example_env blank_label_config None new_manager))) \<and>
   calls (snd (createSecretForConfigMap example_env blank_label_config None new_manager))
     = [ParseEnvContent (JsString ''KEY=value'') None,
        CreateNamespacedSecret ''default'' created_secret]"
  by code_simp

text \<open>
  C7, amended. For a ConfigMap whose source entry reads as \<open>src\<close>: if the decryption-secret
  label is present and not empty, the first call reads the Secret of that name in the
  ConfigMap's namespace; if the data of the Secret read has a string under the name given by
  the decryption-secret-key label (default \<^verbatim>\<open>CONFIG_DECRYPTION_KEY\<close>), the next call is the
  parse with the decoded string as key; if it has no property of that name, own or inherited,
  the materialization fails with \<open>MissingDecryptionKey\<close> after the read alone. If the label is
  absent or empty, the first call is the parse without a key. A name that the data only
  inherits is left out here (\<open>inherited_decryption_key_is_a_type_error\<close>).
\<close>

theorem decryption_key_resolution:
  "js_get (cm_data cm) (sourceKey_of cm) = Some src \<longrightarrow>
     (map_of (cm_labels cm) decryption_secret_label = Some n \<and> n \<noteq> [] \<longrightarrow>
        (\<exists>rest. calls (snd (createSecretForConfigMap env cm existingSecret m))
                 = calls m @ ReadNamespacedSecret n (cm_namespace cm) # rest) \<and>
        (readNamespacedSecret env (calls m) n (cm_namespace cm) = Inr ks \<and>
         js_get (s_data ks) (keySecretKey_of cm) = Some (JsString v) \<longrightarrow>
           (\<exists>rest. calls (snd (createSecretForConfigMap env cm existingSecret m))
                 = calls m @ [ReadNamespacedSecret n (cm_namespace cm),
                              ParseEnvContent src (Some (base64ToUtf8 env v))] @ rest)) \<and>
        (readNamespacedSecret env (calls m) n (cm_namespace cm) = Inr ks \<and>
         js_get (s_data ks) (keySecretKey_of cm) = None \<longrightarrow>
           createSecretForConfigMap env cm existingSecret m
             = (Inl (MissingDecryptionKey (keySecretKey_of cm) n),
                record_call (ReadNamespacedSecret n (cm_namespace cm)) m))) \<and>
     (map_of (cm_labels cm) decryption_secret_label = None \<or>
      map_of (cm_labels cm) decryption_secret_label = Some [] \<longrightarrow>
        (\<exists>rest. calls (snd (createSecretForConfigMap env cm existingSecret m))
                 = calls m @ ParseEnvContent src None # rest))"
proof (intro impI conjI)
  assume src: "js_get (cm_data cm) (sourceKey_of cm) = Some src"
  {
    assume n: "map_of (cm_labels cm) decryption_secret_label = Some n \<and> n \<noteq> []"
    then have n': "map_of (cm_labels cm) decryption_secret_label = Some n" "n \<noteq> []" by simp_all
    note eq = createSecretForConfigMap_with_key [OF src n', of env existingSecret m]
    show "\<exists>rest. calls (snd (createSecretForConfigMap env cm existingSecret m))
                 = calls m @ ReadNamespacedSecret n (cm_namespace cm) # rest"
      unfolding eq
      by (simp add: createSecretWithConfigMapData_state
            split: sum.splits option.splits js_value.splits)
    {
      assume "readNamespacedSecret env (calls m) n (cm_namespace cm) = Inr ks \<and>
         js_get (s_data ks) (keySecretKey_of cm) = Some (JsString v)"
      then show "\<exists>rest. calls (snd (createSecretForConfigMap env cm existingSecret m))
                 = calls m @ [ReadNamespacedSecret n (cm_namespace cm),
                              ParseEnvContent src (Some (base64ToUtf8 env v))] @ rest"
        unfolding eq
        by (simp add: createSecretWithConfigMapData_state split: sum.splits option.splits)
    }
    {
      assume "readNamespacedSecret env (calls m) n (cm_namespace cm) = Inr ks \<and>
         js_get (s_data ks) (keySecretKey_of cm) = None"
      then show "createSecretForConfigMap env cm existingSecret m
             = (Inl (MissingDecryptionKey (keySecretKey_of cm) n),
                record_call (ReadNamespacedSecret n (cm_namespace cm)) m)"
        unfolding eq by simp
    }
  }
  {
    assume "map_of (cm_labels cm) decryption_secret_label = None \<or>
      map_of (cm_labels cm) decryption_secret_label = Some []"
    note eq = createSecretForConfigMap_without_key [OF src this, of env existingSecret m]
    show "\<exists>rest. calls (snd (createSecretForConfigMap env cm existingSecret m))
                 = calls m @ ParseEnvContent src None # rest"
      unfolding eq
      by (simp add: createSecretWithConfigMapData_state split: sum.splits option.splits)
  }
qed

theorem decryption_key_resolution_witness:
  "map_of (cm_labels encrypted_config) decryption_secret_label = Some ''key-secret'' \<and>
   keySecretKey_of encrypted_config = ''CONFIG_DECRYPTION_KEY'' \<and>
   readNamespacedSecret example_env (calls new_manager) ''key-secret'' ''default'' = Inr key_secret \<and>
   (\<exists>rest. calls (snd (createSecretForConfigMap example_env encrypted_config None new_manager))
       = [ReadNamespacedSecret ''key-secret'' ''default'',
          ParseEnvContent (JsString ''ENCRYPTED_KEY=encrypted_value'') (Some ''my-secret-key'')] @ rest) \<and>
   keySecretKey_of custom_key_config = ''CUSTOM_KEY_NAME'' \<and>
   js_get (s_data key_secret) ''CUSTOM_KEY_NAME'' = None \<and>
   createSecretForConfigMap example_env custom_key_config None new_manager
     = (Inl (MissingDecryptionKey ''CUSTOM_KEY_NAME'' ''key-secret''),
        record_call (ReadNamespacedSecret ''key-secret'' ''default'') new_manager) \<and>
   map_of (cm_labels my_config) decryption_secret_label = None \<and>
   (\<exists>rest. calls (snd (createSecretForConfigMap example_env my_config None new_manager))
       = ParseEnvContent (JsString ''KEY=value'') None # rest)"
proof -
  have e: "js_get (cm_data encrypted_config) (sourceKey_of encrypted_config)
             = Some (JsString ''ENCRYPTED_KEY=encrypted_value'')"
    "map_of (cm_labels encrypted_config) decryption_secret_label = Some ''key-secret''"
    "keySecretKey_of encrypted_config = ''CONFIG_DECRYPTION_KEY''"
    "cm_namespace encrypted_config = ''default''"
    by code_simp+
  have r: "readNamespacedSecret example_env (calls new_manager) ''key-secret'' ''default'' = Inr key_secret"
    "js_get (s_data key_secret) ''CONFIG_DECRYPTION_KEY'' = Some (JsString ''bXktc2VjcmV0LWtleQ=='')"
    "base64ToUtf8 example_env ''bXktc2VjcmV0LWtleQ=='' = ''my-secret-key''"
    "js_get (s_data key_secret) ''CUSTOM_KEY_NAME'' = None"
    by code_simp+
  have c: "js_get (cm_data custom_key_config) (sourceKey_of custom_key_config)
             = Some (JsString ''ENCRYPTED_KEY=encrypted_value'')"
    "map_of (cm_labels custom_key_config) decryption_secret_label = Some ''key-secret''"
    "keySecretKey_of custom_key_config = ''CUSTOM_KEY_NAME''"
    "cm_namespace custom_key_config = ''default''"
    by code_simp+
  have p: "js_get (cm_data my_config) (sourceKey_of my_config) = Some (JsString ''KEY=value'')"
    "map_of (cm_labels my_config) decryption_secret_label = None"
    by code_simp+
  have n: "calls new_manager = []" by (simp add: new_manager_def)
  from decryption_key_resolution [of encrypted_config "JsString ''ENCRYPTED_KEY=encrypted_value''"
      "''key-secret''" example_env None new_manager key_secret "''bXktc2VjcmV0LWtleQ==''"] e r
  have one: "\<exists>rest. calls (snd (createSecretForConfigMap example_env encrypted_config None new_manager))
       = [ReadNamespacedSecret ''key-secret'' ''default'',
          ParseEnvContent (JsString ''ENCRYPTED_KEY=encrypted_value'') (Some ''my-secret-key'')] @ rest"
    by (simp add: n)
  from decryption_key_resolution [of custom_key_config "JsString ''ENCRYPTED_KEY=encrypted_value''"
      "''key-secret''" example_env None new_manager key_secret] c r
  have two: "createSecretForConfigMap example_env custom_key_config None new_manager
     = (Inl (MissingDecryptionKey ''CUSTOM_KEY_NAME'' ''key-secret''),
        record_call (ReadNamespacedSecret ''key-secret'' ''default'') new_manager)"
    by simp
  from decryption_key_resolution [of my_config "JsString ''KEY=value''" _ example_env None new_manager] p
  have three: "\<exists>rest. calls (snd (createSecretForConfigMap example_env my_config None new_manager))
       = ParseEnvContent (JsString ''KEY=value'') None # rest"
    by (simp add: n)
  from e r c p one two three show ?thesis by blast
qed

text \<open>
  C8. A ConfigMap whose data lacks the entry named by its source-key label should fail to
  materialize with \<open>MissingSourceKey\<close> before any call. The source tests the entry against
  \<^verbatim>\<open>undefined\<close>, and does report a name that the data neither has nor inherits
  (\<open>missing_source_key_fails\<close>). A source-key label that names an inherited property, here
  \<^verbatim>\<open>constructor\<close>, passes the test although the data has no such entry: the key Secret is
  read, the parser is handed the inherited function, and the error is not
  \<open>MissingSourceKey\<close>.
\<close>

theorem inherited_source_key_is_not_reported_missing:
  "sourceKey_of constructor_key_config = ''constructor'' \<and>
   cm_data constructor_key_config = Some [(''.env'', ''ENCRYPTED_KEY=encrypted_value'')] \<and>
   createSecretForConfigMap example_env constructor_key_config None new_manager
     = (Inl (DecryptionFailed ''content is not a string''),
        new_manager\<lparr>calls := [ReadNamespacedSecret ''key-secret'' ''default'',
           ParseEnvContent (JsInherited ''constructor'') (Some ''my-secret-key'')]\<rparr>)"
  by code_simp

text \<open>
  C9. An entry with both halves absent should be removed by the pass, so that none is left
  once a pass has completed. The iteration over such an entry does remove it without a call
  (\<open>sync_entry_collects_empty_entry\<close>), and a pass that returns without throwing leaves no
  such entry (\<open>pass_no_empty_entry\<close>); but a pass that meets a Secret without ConfigMap first
  throws as in C1 and never gets to it. Below, the watches deliver an orphan Secret, then a
  ConfigMap and its deletion, before \<^verbatim>\<open>start\<close> completes. The first pass has settled and
  the entry with both halves absent is still in the cache.
\<close>

theorem empty_entry_survives_behind_an_orphan:
  "cache (run example_env new_manager
      [SecretEvent ADDED orphan_secret, ConfigMapEvent ADDED other_config,
       ConfigMapEvent DELETED other_config, Started, Settled])
     = [(''default/other-secret'', \<lparr>e_secret = None, e_configMap = None\<rparr>)] \<and>
   calls (run example_env new_manager
      [SecretEvent ADDED orphan_secret, ConfigMapEvent ADDED other_config,
       ConfigMapEvent DELETED other_config, Started, Settled])
     = [DeleteNamespacedSecret (Some ''orphan-secret'') ''default''] \<and>
   inflight (run example_env new_manager
      [SecretEvent ADDED orphan_secret, ConfigMapEvent ADDED other_config,
       ConfigMapEvent DELETED other_config, Started, Settled]) = [] \<and>
   last (logs (run example_env new_manager
      [SecretEvent ADDED orphan_secret, ConfigMapEvent ADDED other_config,
       ConfigMapEvent DELETED other_config, Started, Settled]))
     = LogError (TypeError ''metadata'') ''Failed to sync secrets''"
  by code_simp

text \<open>
  C10. In any run of the event loop before \<^verbatim>\<open>start\<close> has completed (watch events, calls of
  \<^verbatim>\<open>syncSecrets\<close>) no pass has started, no call has been made, the manager is not ready and
  the pending flag, set at construction, is still set; one more call of \<^verbatim>\<open>syncSecrets\<close> only
  sets that flag. The completion of \<^verbatim>\<open>start\<close> then starts the first pass.
\<close>

theorem no_pass_before_startup_completes:
  "Started \<notin> set evs \<longrightarrow>
     passesStarted (run env new_manager evs) = 0 \<and>
     calls (run env new_manager evs) = [] \<and>
     inflight (run env new_manager evs) = [] \<and>
     \<not> isReady (run env new_manager evs) \<and>
     isPendingSync (run env new_manager evs) \<and>
     syncSecrets env (run env new_manager evs) = (run env new_manager evs)\<lparr>isPendingSync := True\<rparr> \<and>
     passesStarted (run env new_manager (evs @ [Started])) = 1 \<and>
     length (inflight (run env new_manager (evs @ [Started]))) = 1"
proof
  assume "Started \<notin> set evs"
  then have n: "not_started (run env new_manager evs)" by (rule not_started_run)
  then have f: "passesStarted (run env new_manager evs) = 0" "calls (run env new_manager evs) = []"
    "inflight (run env new_manager evs) = []" "\<not> isReady (run env new_manager evs)"
    "isPendingSync (run env new_manager evs)"
    by (simp_all add: not_started_def scheduling_def)
  from f(4) have s: "syncSecrets env (run env new_manager evs)
      = (run env new_manager evs)\<lparr>isPendingSync := True\<rparr>"
    by (rule syncSecrets_not_ready)
  from started_step [OF n, of env]
  have "passesStarted (run env new_manager (evs @ [Started])) = 1"
    "length (inflight (run env new_manager (evs @ [Started]))) = 1"
    unfolding run_snoc by blast+
  with f s show "passesStarted (run env new_manager evs) = 0 \<and>
     calls (run env new_manager evs) = [] \<and>
     inflight (run env new_manager evs) = [] \<and>
     \<not> isReady (run env new_manager evs) \<and>
     isPendingSync (run env new_manager evs) \<and>
     syncSecrets env (run env new_manager evs) = (run env new_manager evs)\<lparr>isPendingSync := True\<rparr> \<and>
     passesStarted (run env new_manager (evs @ [Started])) = 1 \<and>
     length (inflight (run env new_manager (evs @ [Started]))) = 1"
    by blast
qed

theorem no_pass_before_startup_completes_witness:
  "Started \<notin> set [ConfigMapEvent ADDED my_config, Trigger, SecretEvent ADDED orphan_secret] \<and>
   calls (run example_env new_manager
      [ConfigMapEvent ADDED my_config, Trigger, SecretEvent ADDED orphan_secret]) = [] \<and>
   passesStarted (run example_env new_manager
      [ConfigMapEvent ADDED my_config, Trigger, SecretEvent ADDED orphan_secret]) = 0 \<and>
   passesStarted (run example_env new_manager
      ([ConfigMapEvent ADDED my_config, Trigger, SecretEvent ADDED orphan_secret] @ [Started])) = 1"
proof -
  have a: "Started \<notin> set [ConfigMapEvent ADDED my_config, Trigger, SecretEvent ADDED orphan_secret]"
    by simp
  from no_pass_before_startup_completes
    [of "[ConfigMapEvent ADDED my_config, Trigger, SecretEvent ADDED orphan_secret]" example_env] a
  show ?thesis by blast
qed

end
